theory Spec2Isabelle
  imports Complex_Main "HOL-Library.Word"
begin

unbundle bit_operations_syntax

text \<open>
  A model of the Fleetee GPS TCP server. The repository holds two versions of
  \<^verbatim>\<open>handleGpsConnection\<close>, which differ in the listener of \<^verbatim>\<open>'data'\<close>:
  \<^item> the explicit-framing handler (\<^verbatim>\<open>src/unnamed/part_000\<close>) frames the stream itself, the
    login frame by its length field and an AVL packet by its preamble and data length,
    and gives the buffer to the parser once a whole packet is there;
  \<^item> the parser-delegating handler (\<^verbatim>\<open>src/index.js\<close>) gives the buffer to the parser at
    once and frames by what the parser returns.
  Functions of the second carry the suffix \<open>_index\<close>. Times are milliseconds since the
  epoch.
\<close>

section \<open>Buffers\<close>

text \<open>
  A Node \<^verbatim>\<open>Buffer\<close> is a list of bytes. The readers below are the big-endian readers
  of \<^verbatim>\<open>Buffer\<close>; the handlers call them only under a length guard that keeps the
  read in range, so the out-of-range \<^verbatim>\<open>RangeError\<close> of Node is never reached and
  the readers are written on the bytes that are there.
\<close>

type_synonym byte = "8 word"

definition be_value :: "byte list \<Rightarrow> nat" where
  "be_value bs = foldl (\<lambda>acc b. acc * 256 + unat b) 0 bs"

definition readUInt16BE :: "byte list \<Rightarrow> nat \<Rightarrow> nat" where
  "readUInt16BE buf off = be_value (take 2 (drop off buf))"

definition readUInt32BE :: "byte list \<Rightarrow> nat \<Rightarrow> nat" where
  "readUInt32BE buf off = be_value (take 4 (drop off buf))"

text \<open>
  \<^verbatim>\<open>Buffer.alloc(4)\<close> followed by \<^verbatim>\<open>writeUInt32BE(v, 0)\<close>: the four bytes of
  \<open>v\<close>, most significant first. Node throws a \<^verbatim>\<open>RangeError\<close> for a value outside
  \<open>0 .. 2^32 - 1\<close>; that is \<open>None\<close>.
\<close>

definition writeUInt32BE :: "nat \<Rightarrow> byte list option" where
  "writeUInt32BE v =
     (if v < 2 ^ 32
      then Some [of_nat (v div 2 ^ 24), of_nat (v div 2 ^ 16), of_nat (v div 2 ^ 8), of_nat v]
      else None)"

text \<open>\<^verbatim>\<open>buf.toString('ascii')\<close>: every byte with its high bit cleared, as a character.\<close>

definition toString_ascii :: "byte list \<Rightarrow> string" where
  "toString_ascii buf = map (\<lambda>b. char_of (unat (b AND 127))) buf"

text \<open>\<^verbatim>\<open>buf.toString('hex')\<close>: two lower-case hexadecimal digits per byte.\<close>

definition hex_digit :: "nat \<Rightarrow> char" where
  "hex_digit n = ''0123456789abcdef'' ! (n mod 16)"

definition toString_hex :: "byte list \<Rightarrow> string" where
  "toString_hex buf = concat (map (\<lambda>b. [hex_digit (unat b div 16), hex_digit (unat b)]) buf)"

section \<open>Decoded records and the outbound schema\<close>

text \<open>
  The objects of the third-party parser, as the handlers read them. A property that is
  absent (\<^verbatim>\<open>undefined\<close>) is \<open>None\<close>. The explicit-framing handler reads
  \<^verbatim>\<open>Timestamp\<close>, \<^verbatim>\<open>GPSelement\<close> and \<^verbatim>\<open>IOelement.Elements\<close> (an object keyed by
  I/O id).
\<close>

record GPSelement =
  Latitude :: "real option"
  Longitude :: "real option"
  Speed :: "int option"
  Angle :: "int option"
  Altitude :: "int option"
  Satellites :: "int option"

record IOelement =
  Elements :: "(nat \<rightharpoonup> int) option"

record AVL_Data =
  Timestamp :: "int option"
  GPSelement :: "GPSelement option"
  IOelement :: "IOelement option"

text \<open>
  The parser-delegating handler reads \<^verbatim>\<open>timestampMs\<close>, \<^verbatim>\<open>latitude\<close>,
  \<^verbatim>\<open>longitude\<close>, \<^verbatim>\<open>speed\<close>, \<^verbatim>\<open>angle\<close> and \<^verbatim>\<open>ioElements\<close>, an array of objects
  with an \<^verbatim>\<open>id\<close> and a \<^verbatim>\<open>value\<close>. Its fields are prefixed with \<open>raw_\<close> and
  \<open>io_\<close> here, the plain names being the keys of the outbound record.
\<close>

record ioElement =
  io_id :: nat
  io_value :: "int option"

record avl_record =
  timestampMs :: "int option"
  raw_latitude :: "real option"
  raw_longitude :: "real option"
  raw_speed :: "int option"
  raw_angle :: "int option"
  ioElements :: "ioElement list option"

text \<open>
  The record posted to the Fleetee API; \<open>None\<close> is JSON \<^verbatim>\<open>null\<close> (also the
  \<^verbatim>\<open>NaN\<close> of a timestamp, which \<^verbatim>\<open>JSON.stringify\<close> writes as \<^verbatim>\<open>null\<close>). The
  parser-delegating handler builds the seven keys of \<open>outbound_base\<close>, the
  explicit-framing handler these and \<^verbatim>\<open>altitude\<close> and \<^verbatim>\<open>satellites\<close>.
\<close>

record outbound_base =
  timestamp :: "int option"
  latitude :: "real option"
  longitude :: "real option"
  speed :: "int option"
  angle :: "int option"
  odometer :: "int option"
  ignition :: "bool option"

record outbound = outbound_base +
  altitude :: "int option"
  satellites :: "int option"

text \<open>\<^verbatim>\<open>x || d\<close> on a number that may be absent: \<open>d\<close> when \<open>x\<close> is absent or zero.\<close>

definition or_else :: "'a::zero option \<Rightarrow> 'a option \<Rightarrow> 'a option" where
  "or_else x d = (case x of None \<Rightarrow> d | Some v \<Rightarrow> if v = 0 then d else Some v)"

text \<open>\<^verbatim>\<open>record.GPSelement?.F\<close> and \<^verbatim>\<open>record.IOelement?.Elements?.[k]\<close>.\<close>

definition gps_field :: "(GPSelement \<Rightarrow> 'a option) \<Rightarrow> AVL_Data \<Rightarrow> 'a option" where
  "gps_field f r = (case GPSelement r of None \<Rightarrow> None | Some g \<Rightarrow> f g)"

definition io_element :: "AVL_Data \<Rightarrow> nat \<Rightarrow> int option" where
  "io_element r k =
     (case IOelement r of
        None \<Rightarrow> None
      | Some io \<Rightarrow> (case Elements io of None \<Rightarrow> None | Some els \<Rightarrow> els k))"

text \<open>The callback of \<^verbatim>\<open>rawRecords.map\<close> in the explicit-framing handler.\<close>

definition formatRecord :: "AVL_Data \<Rightarrow> outbound" where
  "formatRecord r =
     \<lparr> timestamp = Timestamp r,
       latitude = or_else (gps_field Latitude r) (Some 0),
       longitude = or_else (gps_field Longitude r) (Some 0),
       speed = or_else (gps_field Speed r) (Some 0),
       angle = or_else (gps_field Angle r) None,
       odometer = or_else (io_element r 199) None,
       ignition =
         (if io_element r 239 = Some 1 then Some True
          else if io_element r 239 = Some 0 then Some False
          else None),
       altitude = or_else (gps_field Altitude r) None,
       satellites = or_else (gps_field Satellites r) None \<rparr>"

text \<open>
  The callback of \<^verbatim>\<open>rawRecords.map\<close> in the parser-delegating handler; \<open>now\<close> is
  what \<^verbatim>\<open>Date.now()\<close> returns while the record is mapped.
  \<^verbatim>\<open>record.ioElements?.find(io => io.id === k)?.value\<close> is \<open>io_find\<close>.
\<close>

definition io_find :: "avl_record \<Rightarrow> nat \<Rightarrow> int option" where
  "io_find r k =
     (case ioElements r of
        None \<Rightarrow> None
      | Some ios \<Rightarrow> (case find (\<lambda>io. io_id io = k) ios of None \<Rightarrow> None | Some io \<Rightarrow> io_value io))"

definition formatRecord_index :: "int \<Rightarrow> avl_record \<Rightarrow> outbound_base" where
  "formatRecord_index now r =
     \<lparr> timestamp = or_else (timestampMs r) (Some now),
       latitude = or_else (raw_latitude r) (Some 0),
       longitude = or_else (raw_longitude r) (Some 0),
       speed = or_else (raw_speed r) None,
       angle = or_else (raw_angle r) None,
       odometer = or_else (io_find r 199) None,
       ignition = (if io_find r 239 = Some 1 then Some True else None) \<rparr>"

section \<open>The parser\<close>

text \<open>
  \<^verbatim>\<open>ProtocolParser\<close> belongs to the package \<^verbatim>\<open>complete-teltonika-parser\<close>, which is
  not part of the repository: it is a parameter of the model. It takes the hexadecimal
  text of the whole read buffer; \<open>None\<close> is a constructor that throws. Of the object
  it returns, the explicit-framing handler reads \<^verbatim>\<open>Content.AVL_Datas\<close> and the
  parser-delegating handler reads \<^verbatim>\<open>imei\<close> and \<^verbatim>\<open>avl.data\<close>.
\<close>

record Content =
  AVL_Datas :: "AVL_Data list option"

record avl =
  data :: "avl_record list option"

record parser_object =
  Content :: "Content option"
  parser_imei :: "string option"
  parser_avl :: "avl option"

type_synonym ProtocolParser = "string \<Rightarrow> parser_object option"

definition content_records :: "parser_object \<Rightarrow> AVL_Data list option" where
  "content_records pr = (case Content pr of None \<Rightarrow> None | Some c \<Rightarrow> AVL_Datas c)"

definition avl_data :: "parser_object \<Rightarrow> avl_record list option" where
  "avl_data pr = (case parser_avl pr of None \<Rightarrow> None | Some a \<Rightarrow> data a)"

section \<open>Sessions and the connection state\<close>

record session =
  imei :: "string option"
  connectedAt :: nat
  lastDataAt :: nat
  packetsReceived :: nat
  bytesReceived :: nat

text \<open>
  The state one connection works on: the process-wide \<^verbatim>\<open>activeSessions\<close> map, the
  variables \<^verbatim>\<open>sessionId\<close>, \<^verbatim>\<open>authenticatedIMEI\<close> and \<^verbatim>\<open>dataBuffer\<close> of the closure
  of \<^verbatim>\<open>handleGpsConnection\<close>, and the effects on the outside: the buffers handed to
  \<^verbatim>\<open>socket.write\<close> in order, whether \<^verbatim>\<open>socket.destroy\<close> was called, and the calls of
  \<^verbatim>\<open>forwardToFleetee\<close> scheduled with \<^verbatim>\<open>setImmediate\<close>, in order (\<open>'r\<close> is the type
  of the records of a batch).
\<close>

record 'r conn =
  activeSessions :: "string \<rightharpoonup> session"
  sessionId :: string
  authenticatedIMEI :: "string option"
  dataBuffer :: "byte list"
  written :: "byte list list"
  destroyed :: bool
  forwarded :: "(string option \<times> 'r list) list"

text \<open>A string or \<^verbatim>\<open>null\<close> used as a condition: \<^verbatim>\<open>null\<close> and the empty string are falsy.\<close>

definition truthy :: "string option \<Rightarrow> bool" where
  "truthy v = (case v of None \<Rightarrow> False | Some s \<Rightarrow> s \<noteq> [])"

text \<open>
  The body of \<^verbatim>\<open>handleGpsConnection\<close> up to the registration of the listeners;
  \<open>sessions\<close> is the registry it finds, \<open>sid\<close> the address and port of the peer, and
  \<open>now\<close> the clock read by \<^verbatim>\<open>new Date()\<close> (twice, within one object literal: one
  reading stands for both).
\<close>

definition handleGpsConnection :: "(string \<rightharpoonup> session) \<Rightarrow> string \<Rightarrow> nat \<Rightarrow> 'r conn" where
  "handleGpsConnection sessions sid now =
     \<lparr> activeSessions = sessions(sid \<mapsto>
         \<lparr> imei = None, connectedAt = now, lastDataAt = now,
           packetsReceived = 0, bytesReceived = 0 \<rparr>),
       sessionId = sid,
       authenticatedIMEI = None,
       dataBuffer = [],
       written = [],
       destroyed = False,
       forwarded = [] \<rparr>"

text \<open>
  A mutation of the session object of this connection, which the map holds; the
  function \<^verbatim>\<open>cleanup\<close> of the closure; and \<^verbatim>\<open>socket.destroy()\<close>.
\<close>

definition upd_session :: "(session \<Rightarrow> session) \<Rightarrow> 'r conn \<Rightarrow> 'r conn" where
  "upd_session f w =
     w\<lparr>activeSessions :=
         (activeSessions w)(sessionId w := map_option f (activeSessions w (sessionId w)))\<rparr>"

definition cleanup :: "'r conn \<Rightarrow> 'r conn" where
  "cleanup w = w\<lparr>activeSessions := (activeSessions w)(sessionId w := None), dataBuffer := []\<rparr>"

definition socket_destroy :: "'r conn \<Rightarrow> 'r conn" where
  "socket_destroy w = w\<lparr>destroyed := True\<rparr>"

text \<open>
  The first statements of the \<^verbatim>\<open>'data'\<close> listener, the same in both handlers: the chunk
  is appended and the statistics of the session are updated.
\<close>

definition append_chunk :: "nat \<Rightarrow> byte list \<Rightarrow> 'r conn \<Rightarrow> 'r conn" where
  "append_chunk now chunk w =
     upd_session (\<lambda>s. s\<lparr>lastDataAt := now, bytesReceived := bytesReceived s + length chunk\<rparr>)
       (w\<lparr>dataBuffer := dataBuffer w @ chunk\<rparr>)"

datatype 'r loop_result = Continue "'r conn" | Break "'r conn"

section \<open>The explicit-framing data handler\<close>

text \<open>
  The \<^verbatim>\<open>try\<close> block of the AVL branch, on a buffer that holds the whole packet. The
  batch is scheduled before the acknowledgement is built, so a \<^verbatim>\<open>RangeError\<close> of
  \<^verbatim>\<open>writeUInt32BE\<close> is caught after the batch was scheduled. The scheduled call reads
  \<^verbatim>\<open>authenticatedIMEI\<close> when it runs; the variable is assigned once, at the login, so
  the value at scheduling time is the value passed.
\<close>

definition parse_avl :: "ProtocolParser \<Rightarrow> outbound conn \<Rightarrow> outbound conn" where
  "parse_avl parser w =
     (case parser (toString_hex (dataBuffer w)) of
        None \<Rightarrow> w
      | Some pr \<Rightarrow>
          (case content_records pr of
             None \<Rightarrow> w
           | Some rawRecords \<Rightarrow>
               if length rawRecords > 0 then
                 (let records = map formatRecord rawRecords;
                      w1 = w\<lparr>forwarded := forwarded w @ [(authenticatedIMEI w, records)]\<rparr>
                  in case writeUInt32BE (length rawRecords) of
                       None \<Rightarrow> w1
                     | Some ackBuffer \<Rightarrow>
                         upd_session (\<lambda>s. s\<lparr>packetsReceived := packetsReceived s + 1\<rparr>)
                           (w1\<lparr>written := written w1 @ [ackBuffer]\<rparr>))
               else w))"

text \<open>One pass through the body of \<^verbatim>\<open>while (dataBuffer.length > 0)\<close>.\<close>

definition loop_body :: "ProtocolParser \<Rightarrow> outbound conn \<Rightarrow> outbound loop_result" where
  "loop_body parser w =
     (let buf = dataBuffer w in
      if \<not> truthy (authenticatedIMEI w) \<and> length buf \<ge> 17 \<and> readUInt16BE buf 0 = 15 then
        (let imeiString = toString_ascii (take 15 (drop 2 buf)) in
         Continue
           ((upd_session (\<lambda>s. s\<lparr>imei := Some imeiString,
                                   packetsReceived := packetsReceived s + 1\<rparr>) w)
              \<lparr>authenticatedIMEI := Some imeiString,
               written := written w @ [[1]],
               dataBuffer := drop 17 buf\<rparr>))
      else if truthy (authenticatedIMEI w) \<and> length buf \<ge> 8 then
        (if readUInt32BE buf 0 \<noteq> 0 then Break (w\<lparr>dataBuffer := []\<rparr>)
         else
           (let dataLength = readUInt32BE buf 4;
                totalPacketSize = 8 + dataLength + 4
            in if length buf < totalPacketSize then Break w
               else Continue ((parse_avl parser w)\<lparr>dataBuffer := drop totalPacketSize buf\<rparr>)))
      else Break w)"

function process_frames :: "ProtocolParser \<Rightarrow> outbound conn \<Rightarrow> outbound conn" where
  "process_frames parser w =
     (if length (dataBuffer w) > 0
      then (case loop_body parser w of
              Continue w' \<Rightarrow> process_frames parser w'
            | Break w' \<Rightarrow> w')
      else w)"
  by pat_completeness auto
termination
  by (relation "measure (\<lambda>(parser, w). length (dataBuffer w))")
     (auto simp: loop_body_def Let_def split: if_splits)

declare process_frames.simps [simp del]

text \<open>The listener of \<^verbatim>\<open>'data'\<close>.\<close>

definition on_data :: "ProtocolParser \<Rightarrow> nat \<Rightarrow> outbound conn \<Rightarrow> byte list \<Rightarrow> outbound conn" where
  "on_data parser now w chunk =
     (case activeSessions w (sessionId w) of
        None \<Rightarrow> w
      | Some _ \<Rightarrow>
          (let w1 = append_chunk now chunk w
           in if length (dataBuffer w1) > 64 * 1024 then socket_destroy w1
              else process_frames parser w1))"

section \<open>The parser-delegating data handler\<close>

text \<open>
  The handler that leaves the framing to the parser. \<open>parsed_imei\<close> is
  \<^verbatim>\<open>parser.imei || null\<close>; \<^verbatim>\<open>parser.avl || null\<close> is \<open>parser_avl\<close>, an object being
  truthy. \<open>bytes_consumed\<close> is the value of \<^verbatim>\<open>bytesConsumed\<close> when it is tested.
\<close>

definition parsed_imei :: "parser_object \<Rightarrow> string option" where
  "parsed_imei pr = (if truthy (parser_imei pr) then parser_imei pr else None)"

definition bytes_consumed :: "parser_object \<Rightarrow> byte list \<Rightarrow> nat" where
  "bytes_consumed pr buf =
     (if truthy (parsed_imei pr) \<and> parser_avl pr = None then 17
      else if parser_avl pr \<noteq> None
           then (if length buf \<ge> 8 then 8 + readUInt32BE buf 4 + 4 else 0)
           else 0)"

definition session_imei :: "'r conn \<Rightarrow> string option" where
  "session_imei w = (case activeSessions w (sessionId w) of None \<Rightarrow> None | Some s \<Rightarrow> imei s)"

text \<open>
  The block that processes the records of a frame. \<open>clock i\<close> is what \<^verbatim>\<open>Date.now()\<close>
  returns while record \<open>i\<close> of the batch is mapped. A \<^verbatim>\<open>RangeError\<close> of
  \<^verbatim>\<open>writeUInt32BE\<close> leaves the loop through the outer \<^verbatim>\<open>catch\<close>, after the frame was
  removed from the buffer and the batch scheduled.
\<close>

definition process_avl_index ::
  "(nat \<Rightarrow> int) \<Rightarrow> parser_object \<Rightarrow> outbound_base conn \<Rightarrow> outbound_base loop_result" where
  "process_avl_index clock pr w =
     (case avl_data pr of
        None \<Rightarrow> Continue w
      | Some rawRecords \<Rightarrow>
          if length rawRecords > 0 then
            (let imei' = (if truthy (session_imei w) then session_imei w
                          else authenticatedIMEI w)
             in if \<not> truthy imei' then Continue w
                else
                  (let records = map (\<lambda>(i, r). formatRecord_index (clock i) r)
                                   (enumerate 0 rawRecords);
                       w2 = w\<lparr>forwarded := forwarded w @ [(imei', records)]\<rparr>
                   in case writeUInt32BE (length rawRecords) of
                        None \<Rightarrow> Break w2
                      | Some ackBuffer \<Rightarrow> Continue (w2\<lparr>written := written w2 @ [ackBuffer]\<rparr>)))
          else Continue w)"

text \<open>One pass through the body of the loop.\<close>

definition loop_body_index ::
  "ProtocolParser \<Rightarrow> (nat \<Rightarrow> int) \<Rightarrow> outbound_base conn \<Rightarrow> outbound_base loop_result" where
  "loop_body_index parser clock w =
     (let buf = dataBuffer w in
      case parser (toString_hex buf) of
        None \<Rightarrow> Break w
      | Some pr \<Rightarrow>
          (let bytesConsumed = bytes_consumed pr buf
           in if bytesConsumed = 0 \<or> bytesConsumed > length buf then Break (w\<lparr>dataBuffer := []\<rparr>)
              else
                (let w1 = upd_session (\<lambda>s. s\<lparr>packetsReceived := packetsReceived s + 1\<rparr>)
                            (w\<lparr>dataBuffer := drop bytesConsumed buf\<rparr>)
                 in if truthy (parsed_imei pr) \<and> \<not> truthy (session_imei w1) then
                      Continue
                        ((upd_session (\<lambda>s. s\<lparr>imei := parsed_imei pr\<rparr>) w1)
                           \<lparr>authenticatedIMEI := parsed_imei pr,
                            written := written w1 @ [[1]]\<rparr>)
                    else process_avl_index clock pr w1)))"

function process_frames_index ::
  "ProtocolParser \<Rightarrow> (nat \<Rightarrow> int) \<Rightarrow> outbound_base conn \<Rightarrow> outbound_base conn" where
  "process_frames_index parser clock w =
     (if length (dataBuffer w) > 0
      then (case loop_body_index parser clock w of
              Continue w' \<Rightarrow> process_frames_index parser clock w'
            | Break w' \<Rightarrow> w')
      else w)"
  by pat_completeness auto
termination
  by (relation "measure (\<lambda>(parser, clock, w). length (dataBuffer w))")
     (auto simp: loop_body_index_def process_avl_index_def Let_def upd_session_def
           split: if_splits option.splits)

declare process_frames_index.simps [simp del]

definition on_data_index ::
  "ProtocolParser \<Rightarrow> (nat \<Rightarrow> int) \<Rightarrow> nat \<Rightarrow> outbound_base conn \<Rightarrow> byte list
     \<Rightarrow> outbound_base conn" where
  "on_data_index parser clock now w chunk =
     (case activeSessions w (sessionId w) of
        None \<Rightarrow> w
      | Some _ \<Rightarrow>
          (let w1 = append_chunk now chunk w
           in if length (dataBuffer w1) > 64 * 1024 then socket_destroy w1
              else process_frames_index parser clock w1))"

section \<open>Events of a connection\<close>

text \<open>
  The listeners that \<^verbatim>\<open>handleGpsConnection\<close> registers on the socket. \<^verbatim>\<open>'end'\<close>,
  \<^verbatim>\<open>'close'\<close> and \<^verbatim>\<open>'error'\<close> run \<^verbatim>\<open>cleanup\<close>, \<^verbatim>\<open>'timeout'\<close> destroys the socket. A
  socket that was destroyed emits \<^verbatim>\<open>'close'\<close>, so that \<^verbatim>\<open>cleanup\<close> runs before any other
  listener of the connection does: that is \<open>after_destroy\<close>.
\<close>

datatype event = Data nat "byte list" | End | Close | Error | Timeout

definition after_destroy :: "'r conn \<Rightarrow> 'r conn" where
  "after_destroy w = (if destroyed w then cleanup w else w)"

fun socket_emit :: "ProtocolParser \<Rightarrow> outbound conn \<Rightarrow> event \<Rightarrow> outbound conn" where
  "socket_emit parser w (Data now chunk) = after_destroy (on_data parser now w chunk)"
| "socket_emit parser w End = cleanup w"
| "socket_emit parser w Close = cleanup w"
| "socket_emit parser w Error = cleanup w"
| "socket_emit parser w Timeout = after_destroy (socket_destroy w)"

fun socket_emit_index ::
  "ProtocolParser \<Rightarrow> (nat \<Rightarrow> int) \<Rightarrow> outbound_base conn \<Rightarrow> event \<Rightarrow> outbound_base conn" where
  "socket_emit_index parser clock w (Data now chunk) =
     after_destroy (on_data_index parser clock now w chunk)"
| "socket_emit_index parser clock w End = cleanup w"
| "socket_emit_index parser clock w Close = cleanup w"
| "socket_emit_index parser clock w Error = cleanup w"
| "socket_emit_index parser clock w Timeout = after_destroy (socket_destroy w)"

text \<open>The state of a new connection after a sequence of events.\<close>

definition run :: "ProtocolParser \<Rightarrow> outbound conn \<Rightarrow> event list \<Rightarrow> outbound conn" where
  "run parser w evs = foldl (socket_emit parser) w evs"

definition run_index ::
  "ProtocolParser \<Rightarrow> (nat \<Rightarrow> int) \<Rightarrow> outbound_base conn \<Rightarrow> event list \<Rightarrow> outbound_base conn" where
  "run_index parser clock w evs = foldl (socket_emit_index parser clock) w evs"

section \<open>Notions used to state the properties\<close>

text \<open>
  The buffer starts with a whole AVL packet: eight bytes of preamble and length, the
  data field of the announced length, and four bytes of CRC.
\<close>

definition complete_packet :: "byte list \<Rightarrow> bool" where
  "complete_packet buf \<longleftrightarrow> 8 \<le> length buf \<and> 8 + readUInt32BE buf 4 + 4 \<le> length buf"

text \<open>
  The path of the explicit-framing loop through a buffer, which depends on the bytes and
  on whether a device has logged in, not on the parser: \<open>preamble_fault\<close> holds when
  the loop reaches the branch that logs \<^verbatim>\<open>Invalid AVL preamble\<close>. The lemmas
  \<open>preamble_fault_Continue\<close> and \<open>loop_body_Break\<close> below tie it to \<open>loop_body\<close>.
\<close>

function preamble_fault :: "bool \<Rightarrow> byte list \<Rightarrow> bool" where
  "preamble_fault authenticated buf =
     (if length buf > 0 then
        (if \<not> authenticated \<and> length buf \<ge> 17 \<and> readUInt16BE buf 0 = 15
         then preamble_fault True (drop 17 buf)
         else if authenticated \<and> length buf \<ge> 8 then
           (if readUInt32BE buf 0 \<noteq> 0 then True
            else if length buf < 8 + readUInt32BE buf 4 + 4 then False
            else preamble_fault True (drop (8 + readUInt32BE buf 4 + 4) buf))
         else False)
      else False)"
  by pat_completeness auto
termination
  by (relation "measure (\<lambda>(authenticated, buf). length buf)") auto

declare preamble_fault.simps [simp del]

text \<open>
  \<open>packet_followed\<close> holds when the loop reaches, after the login frame if no device
  has logged in, a whole packet with a zero preamble that is not the end of the buffer:
  the text that \<^verbatim>\<open>new ProtocolParser(dataBuffer.toString('hex'))\<close> is given then holds that
  packet and the bytes after it. The lemmas \<open>packet_followed_login\<close> and
  \<open>packet_followed_here\<close> below tie it to \<open>loop_body\<close>.
\<close>

definition packet_followed :: "bool \<Rightarrow> byte list \<Rightarrow> bool" where
  "packet_followed authenticated buf =
     (let rest = (if authenticated then buf else drop 17 buf)
      in (authenticated \<or> (length buf \<ge> 17 \<and> readUInt16BE buf 0 = 15)) \<and>
         length rest \<ge> 8 \<and> readUInt32BE rest 0 = 0 \<and>
         8 + readUInt32BE rest 4 + 4 < length rest)"

text \<open>A byte stream delivered one byte per \<^verbatim>\<open>'data'\<close> event, byte \<open>i\<close> at time \<open>ts ! i\<close>.\<close>

definition bytewise :: "nat list \<Rightarrow> byte list \<Rightarrow> event list" where
  "bytewise ts bytes = map (\<lambda>(t, b). Data t [b]) (zip ts bytes)"



text \<open>The update of the statistics that \<open>append_chunk\<close> applies to the session.\<close>

definition stats :: "nat \<Rightarrow> nat \<Rightarrow> session \<Rightarrow> session" where
  "stats now n = (\<lambda>s. s\<lparr>lastDataAt := now, bytesReceived := bytesReceived s + n\<rparr>)"

text \<open>A string of decimal digits.\<close>

definition decimal_digits :: "string \<Rightarrow> bool" where
  "decimal_digits s = list_all (\<lambda>c. c \<in> set ''0123456789'') s"

text \<open>
  What the handlers keep true of the IMEI. In the explicit-framing handler it has 15
  characters and is the \<^verbatim>\<open>imei\<close> of the registered session; in the parser-delegating
  handler it is a string that the parser returned as \<^verbatim>\<open>imei\<close>.
\<close>

definition imei_inv :: "'r conn \<Rightarrow> bool" where
  "imei_inv w \<longleftrightarrow>
     (case authenticatedIMEI w of None \<Rightarrow> True | Some s \<Rightarrow> length s = 15) \<and>
     (case activeSessions w (sessionId w) of
        None \<Rightarrow> True
      | Some s \<Rightarrow> imei s = authenticatedIMEI w)"

definition parser_imei_inv :: "ProtocolParser \<Rightarrow> 'r conn \<Rightarrow> bool" where
  "parser_imei_inv parser w \<longleftrightarrow>
     (case authenticatedIMEI w of
        None \<Rightarrow> True
      | Some s \<Rightarrow> \<exists>hex pr. parser hex = Some pr \<and> parser_imei pr = Some s)"

text \<open>
  The CRC-16/IBM of the specification (reflected polynomial \<open>0xA001\<close>, initial value
  0). No file of the repository computes a CRC; the definition serves to say which
  frames carry a wrong one.
\<close>

definition crc16_step :: "nat \<Rightarrow> nat" where
  "crc16_step c = (if odd c then (c div 2) XOR 0xA001 else c div 2)"

definition crc16_byte :: "nat \<Rightarrow> byte \<Rightarrow> nat" where
  "crc16_byte crc b =
     crc16_step (crc16_step (crc16_step (crc16_step
       (crc16_step (crc16_step (crc16_step (crc16_step (crc XOR unat b))))))))"

definition crc16_ibm :: "byte list \<Rightarrow> nat" where
  "crc16_ibm bs = foldl crc16_byte 0 bs"

section \<open>Concrete inputs\<close>

text \<open>
  The login frame of IMEI 356307042441013, one that announces 14 bytes, and one whose
  15 bytes spell \<^verbatim>\<open>GPS-TRACKER-007\<close>.
\<close>

definition imei_356307042441013 :: "byte list" where
  "imei_356307042441013 =
     [0x00, 0x0F, 0x33, 0x35, 0x36, 0x33, 0x30, 0x37, 0x30, 0x34, 0x32, 0x34, 0x34, 0x31,
      0x30, 0x31, 0x33]"

definition login_000E :: "byte list" where
  "login_000E =
     [0x00, 0x0E, 0x33, 0x35, 0x36, 0x33, 0x30, 0x37, 0x30, 0x34, 0x32, 0x34, 0x34, 0x31,
      0x30, 0x31]"

definition login_non_digits :: "byte list" where
  "login_non_digits =
     [0x00, 0x0F, 0x47, 0x50, 0x53, 0x2D, 0x54, 0x52, 0x41, 0x43, 0x4B, 0x45, 0x52, 0x2D,
      0x30, 0x30, 0x37]"

text \<open>
  A Codec 8 packet with one record: data field of 54 bytes, CRC-16/IBM \<open>0xC7CF\<close>; the
  same packet with the last byte of the CRC changed; the start of a packet whose
  preamble is not zero; and eight bytes of line noise.
\<close>

definition codec8_frame :: "byte list" where
  "codec8_frame =
     [0x00, 0x00, 0x00, 0x00, 0x00, 0x00, 0x00, 0x36,
      0x08, 0x01,
      0x00, 0x00, 0x01, 0x6B, 0x40, 0xD8, 0xEA, 0x30, 0x01,
      0x00, 0x00, 0x00, 0x00, 0x00, 0x00, 0x00, 0x00, 0x00, 0x00, 0x00, 0x00, 0x00, 0x00, 0x00,
      0x01, 0x05,
      0x02, 0x15, 0x03, 0x01, 0x01,
      0x01, 0x42, 0x5E, 0x0F,
      0x01, 0xF1, 0x00, 0x00, 0x60, 0x1A,
      0x01, 0x4E, 0x00, 0x00, 0x00, 0x00, 0x00, 0x00, 0x00, 0x00,
      0x01,
      0x00, 0x00, 0xC7, 0xCF]"

definition codec8_frame_bad_crc :: "byte list" where
  "codec8_frame_bad_crc = take 65 codec8_frame @ [0xCE]"

definition bad_preamble_chunk :: "byte list" where
  "bad_preamble_chunk = [0x00, 0x00, 0x00, 0x01, 0x00, 0x00, 0x00, 0x36, 0x08, 0x01]"

definition noise :: "byte list" where
  "noise = [0xFF, 0xFF, 0xFF, 0xFF, 0xFF, 0xFF, 0xFF, 0xFF]"

definition long_stream :: "byte list" where
  "long_stream = imei_356307042441013 @ replicate 65520 0"

definition login_then_frame :: "byte list" where
  "login_then_frame = imei_356307042441013 @ codec8_frame"

definition login_noise_frame :: "byte list" where
  "login_noise_frame = imei_356307042441013 @ noise @ codec8_frame"

definition login_two_frames :: "byte list" where
  "login_two_frames = imei_356307042441013 @ codec8_frame @ codec8_frame"

text \<open>The record of that packet, as each handler reads it.\<close>

definition decoded_record :: AVL_Data where
  "decoded_record =
     \<lparr> Timestamp = Some 1560161086000,
       GPSelement = Some \<lparr> Latitude = Some 0, Longitude = Some 0, Speed = Some 0,
                           Angle = Some 0, Altitude = Some 0, Satellites = Some 0 \<rparr>,
       IOelement = Some \<lparr> Elements = Some [21 \<mapsto> 3, 1 \<mapsto> 1, 66 \<mapsto> 24079,
                                               241 \<mapsto> 24602, 78 \<mapsto> 0] \<rparr> \<rparr>"

definition decoded_raw :: avl_record where
  "decoded_raw =
     \<lparr> timestampMs = Some 1560161086000, raw_latitude = Some 0, raw_longitude = Some 0,
       raw_speed = Some 0, raw_angle = Some 0,
       ioElements = Some [\<lparr> io_id = 21, io_value = Some 3 \<rparr>, \<lparr> io_id = 1, io_value = Some 1 \<rparr>] \<rparr>"

text \<open>A parser that decodes every text to that record, and one that always throws.\<close>

definition parsed_one :: parser_object where
  "parsed_one =
     \<lparr> Content = Some \<lparr> AVL_Datas = Some [decoded_record] \<rparr>,
       parser_imei = None,
       parser_avl = Some \<lparr> data = Some [decoded_raw] \<rparr> \<rparr>"

definition one_record_parser :: ProtocolParser where
  "one_record_parser hex = Some parsed_one"

definition throwing_parser :: ProtocolParser where
  "throwing_parser hex = None"

text \<open>
  A parser that decodes the text of exactly 66 bytes and throws on any other, and a
  parser that finds the IMEI 356307042441013 and no AVL data in every text.
\<close>

definition strict_parser :: ProtocolParser where
  "strict_parser hex = (if length hex = 132 then Some parsed_one else None)"

text \<open>
  A Codec 8 packet with no record (data field \<open>08 00 00\<close>, CRC-16/IBM \<open>0xC281\<close>),
  and a parser that decodes every text to an empty list of records.
\<close>

definition empty_frame :: "byte list" where
  "empty_frame =
     [0x00, 0x00, 0x00, 0x00, 0x00, 0x00, 0x00, 0x03,
      0x08, 0x00, 0x00,
      0x00, 0x00, 0xC2, 0x81]"

definition parsed_none :: parser_object where
  "parsed_none =
     \<lparr> Content = Some \<lparr> AVL_Datas = Some [] \<rparr>,
       parser_imei = None,
       parser_avl = Some \<lparr> data = Some [] \<rparr> \<rparr>"

definition no_record_parser :: ProtocolParser where
  "no_record_parser hex = Some parsed_none"



definition imei_parser :: ProtocolParser where
  "imei_parser hex =
     Some \<lparr> Content = None, parser_imei = Some ''356307042441013'', parser_avl = None \<rparr>"

text \<open>
  A new connection, and a connection whose device has logged in: after \<open>packets\<close>
  frames and \<open>bytes\<close> bytes in \<open>state_after\<close>, after the login frame alone in
  \<open>authenticated_with\<close>.
\<close>

definition new_connection :: "'r conn" where
  "new_connection = handleGpsConnection Map.empty ''10.0.0.7:40312'' 1000"

definition session_after :: "nat \<Rightarrow> nat \<Rightarrow> session" where
  "session_after packets bytes =
     \<lparr> imei = Some ''356307042441013'', connectedAt = 1000, lastDataAt = 1001,
       packetsReceived = packets, bytesReceived = bytes \<rparr>"

definition state_after ::
  "nat \<Rightarrow> nat \<Rightarrow> byte list \<Rightarrow> byte list list \<Rightarrow> (string option \<times> 'r list) list \<Rightarrow> 'r conn" where
  "state_after packets bytes buf wr fw =
     \<lparr> activeSessions = [''10.0.0.7:40312'' \<mapsto> session_after packets bytes],
       sessionId = ''10.0.0.7:40312'',
       authenticatedIMEI = Some ''356307042441013'',
       dataBuffer = buf,
       written = wr,
       destroyed = False,
       forwarded = fw \<rparr>"

definition logged_in :: session where
  "logged_in = session_after 1 17"

definition authenticated_with :: "byte list \<Rightarrow> 'r conn" where
  "authenticated_with buf = state_after 1 17 buf [[1]] []"

text \<open>Records for the normalizers.\<close>

definition record_odometer_zero :: AVL_Data where
  "record_odometer_zero =
     \<lparr> Timestamp = Some 1560161086000,
       GPSelement = Some \<lparr> Latitude = Some 0, Longitude = Some 0, Speed = Some 40,
                           Angle = Some 90, Altitude = Some 12, Satellites = Some 7 \<rparr>,
       IOelement = Some \<lparr> Elements = Some [199 \<mapsto> 0, 239 \<mapsto> 1] \<rparr> \<rparr>"

definition raw_odometer_zero :: avl_record where
  "raw_odometer_zero =
     \<lparr> timestampMs = Some 1560161086000, raw_latitude = Some 0, raw_longitude = Some 0,
       raw_speed = Some 40, raw_angle = Some 90,
       ioElements = Some [\<lparr> io_id = 239, io_value = Some 1 \<rparr>,
                          \<lparr> io_id = 199, io_value = Some 0 \<rparr>] \<rparr>"


definition raw_stationary_ignition_off :: avl_record where
  "raw_stationary_ignition_off =
     \<lparr> timestampMs = Some 1560161086000, raw_latitude = Some 0, raw_longitude = Some 0,
       raw_speed = Some 0, raw_angle = Some 90,
       ioElements = Some [\<lparr> io_id = 239, io_value = Some 0 \<rparr>] \<rparr>"

definition raw_without_timestamp :: avl_record where
  "raw_without_timestamp =
     \<lparr> timestampMs = None, raw_latitude = Some 0, raw_longitude = Some 0,
       raw_speed = Some 40, raw_angle = Some 90, ioElements = None \<rparr>"

section \<open>Lemmas about buffers\<close>

lemma be_value_4:
  "be_value [a, b, c, d] = unat a * 2 ^ 24 + unat b * 2 ^ 16 + unat c * 2 ^ 8 + unat d"
  by (simp add: be_value_def)

lemma readUInt32BE_append:
  "off + 4 \<le> length buf \<Longrightarrow> readUInt32BE (buf @ y) off = readUInt32BE buf off"
  by (simp add: readUInt32BE_def)

lemma readUInt16BE_append:
  "off + 2 \<le> length buf \<Longrightarrow> readUInt16BE (buf @ y) off = readUInt16BE buf off"
  by (simp add: readUInt16BE_def)

lemma unat_byte_of_nat: "unat (of_nat n :: byte) = n mod 256"
  by (simp add: unat_of_nat)

lemma base256_digits:
  fixes v :: nat
  assumes "v < 2 ^ 32"
  shows "(v div 2 ^ 24) mod 256 * 2 ^ 24 + (v div 2 ^ 16) mod 256 * 2 ^ 16
         + (v div 2 ^ 8) mod 256 * 2 ^ 8 + v mod 256 = v"
proof -
  define a where "a = v div 2 ^ 8"
  define b where "b = v div 2 ^ 16"
  define c where "c = v div 2 ^ 24"
  have b: "b = a div 256" and c: "c = b div 256"
    by (simp_all add: a_def b_def c_def div_mult2_eq [symmetric])
  have c_small: "c < 256"
    using assms by (simp add: c_def less_mult_imp_div_less)
  have "v = a * 256 + v mod 256" by (simp add: a_def)
  moreover have "a = b * 256 + a mod 256" by (simp add: b)
  moreover have "b = c * 256 + b mod 256" by (simp add: c)
  ultimately have "c * 16777216 + b mod 256 * 65536 + a mod 256 * 256 + v mod 256 = v"
    by linarith
  moreover have "c mod 256 = c" using c_small by simp
  ultimately show ?thesis by (simp add: a_def b_def c_def)
qed

text \<open>The bytes of an acknowledgement read back, big-endian, as the value written.\<close>

lemma writeUInt32BE_value:
  assumes "v < 2 ^ 32"
  shows "\<exists>ack. writeUInt32BE v = Some ack \<and> length ack = 4 \<and> be_value ack = v"
  using assms base256_digits [OF assms]
  by (simp add: writeUInt32BE_def be_value_4 unat_byte_of_nat)

lemma take4_zero_iff:
  assumes "4 \<le> length buf"
  shows "readUInt32BE buf 0 = 0 \<longleftrightarrow> take 4 buf = [0, 0, 0, 0]"
proof -
  obtain a b c d rest where buf: "buf = a # b # c # d # rest"
    using assms by (auto simp: eval_nat_numeral Suc_le_length_iff)
  show ?thesis
    by (simp add: buf readUInt32BE_def be_value_4 unat_eq_0)
qed

lemma codec8_frame_complete:
  "complete_packet codec8_frame \<and> readUInt32BE codec8_frame 0 = 0 \<and>
   readUInt32BE codec8_frame 4 = 54 \<and> length codec8_frame = 66"
  by (simp add: complete_packet_def codec8_frame_def readUInt32BE_def be_value_def)

lemma crc16_step_eval:
  "crc16_step 0 = 0"
  "crc16_step (Suc 0) = 0xA001"
  "crc16_step (numeral m) =
     (if odd (numeral m :: nat) then (numeral m div 2) XOR 0xA001 else numeral m div 2)"
  by (simp_all add: crc16_step_def)

lemma crc16_byte_eval:
  "crc16_byte 0 b = crc16_step (crc16_step (crc16_step (crc16_step
       (crc16_step (crc16_step (crc16_step (crc16_step (unat b))))))))"
  "crc16_byte (Suc 0) b = crc16_step (crc16_step (crc16_step (crc16_step
       (crc16_step (crc16_step (crc16_step (crc16_step (Suc 0 XOR unat b))))))))"
  "crc16_byte (numeral m) b = crc16_step (crc16_step (crc16_step (crc16_step
       (crc16_step (crc16_step (crc16_step (crc16_step (numeral m XOR unat b))))))))"
  by (simp_all add: crc16_byte_def)

lemma empty_frame_fields:
  "complete_packet empty_frame \<and> readUInt32BE empty_frame 0 = 0 \<and>
   readUInt32BE empty_frame 4 = 3 \<and> length empty_frame = 15 \<and>
   readUInt32BE empty_frame (8 + 3) = crc16_ibm (take 3 (drop 8 empty_frame))"
  by (simp add: complete_packet_def empty_frame_def readUInt32BE_def be_value_def
        crc16_ibm_def crc16_byte_eval crc16_step_eval)

section \<open>Acknowledgement of an AVL frame\<close>

lemma parse_avl_records:
  assumes "parser (toString_hex (dataBuffer w)) = Some pr"
    and "content_records pr = Some rawRecords"
    and "0 < length rawRecords" and "writeUInt32BE (length rawRecords) = Some ack"
  shows "parse_avl parser w =
           upd_session (\<lambda>s. s\<lparr>packetsReceived := packetsReceived s + 1\<rparr>)
             (w\<lparr>forwarded := forwarded w @ [(authenticatedIMEI w, map formatRecord rawRecords)],
                written := written w @ [ack]\<rparr>)"
  using assms by (simp add: parse_avl_def Let_def)

text \<open>
  C1, as amended. A frame is taken when the buffer of an authenticated session starts
  with a complete packet (in the explicit-framing handler, one that starts with four
  zero bytes) and the parser returns a list of \<open>k\<close> records for it. When \<open>k > 0\<close> (a
  number that fits 32 bits), the pass of the loop that takes the frame calls
  \<^verbatim>\<open>socket.write\<close> exactly once, with four bytes whose big-endian value is \<open>k\<close>. When
  \<open>k = 0\<close>, the pass removes the packet from the buffer and writes nothing; the
  parser-delegating handler counts the frame in \<^verbatim>\<open>packetsReceived\<close>, the
  explicit-framing handler does not.
\<close>

theorem avl_frame_acknowledged:
  "(truthy (authenticatedIMEI w) \<and> complete_packet (dataBuffer w) \<and>
    readUInt32BE (dataBuffer w) 0 = 0 \<and>
    parser (toString_hex (dataBuffer w)) = Some pr \<and>
    content_records pr = Some rawRecords \<and> 0 < length rawRecords \<and>
    length rawRecords < 2 ^ 32
    \<longrightarrow> (\<exists>ack w'. loop_body parser w = Continue w' \<and>
           written w' = written w @ [ack] \<and> length ack = 4 \<and>
           be_value ack = length rawRecords)) \<and>
   (activeSessions v (sessionId v) = Some s \<and> truthy (imei s) \<and>
    complete_packet (dataBuffer v) \<and>
    parser (toString_hex (dataBuffer v)) = Some pr' \<and> parser_avl pr' \<noteq> None \<and>
    avl_data pr' = Some raws \<and> 0 < length raws \<and> length raws < 2 ^ 32
    \<longrightarrow> (\<exists>ack v'. loop_body_index parser clock v = Continue v' \<and>
           written v' = written v @ [ack] \<and> length ack = 4 \<and>
           be_value ack = length raws)) \<and>
   (truthy (authenticatedIMEI w) \<and> complete_packet (dataBuffer w) \<and>
    readUInt32BE (dataBuffer w) 0 = 0 \<and>
    parser (toString_hex (dataBuffer w)) = Some pr \<and> content_records pr = Some []
    \<longrightarrow> loop_body parser w
          = Continue (w\<lparr>dataBuffer :=
              drop (8 + readUInt32BE (dataBuffer w) 4 + 4) (dataBuffer w)\<rparr>)) \<and>
   (activeSessions v (sessionId v) = Some s \<and> truthy (imei s) \<and>
    complete_packet (dataBuffer v) \<and>
    parser (toString_hex (dataBuffer v)) = Some pr' \<and> parser_avl pr' \<noteq> None \<and>
    avl_data pr' = Some []
    \<longrightarrow> loop_body_index parser clock v
          = Continue (upd_session (\<lambda>s. s\<lparr>packetsReceived := packetsReceived s + 1\<rparr>)
              (v\<lparr>dataBuffer :=
                 drop (8 + readUInt32BE (dataBuffer v) 4 + 4) (dataBuffer v)\<rparr>)))"
proof (intro conjI impI)
  assume a: "truthy (authenticatedIMEI w) \<and> complete_packet (dataBuffer w) \<and>
    readUInt32BE (dataBuffer w) 0 = 0 \<and>
    parser (toString_hex (dataBuffer w)) = Some pr \<and>
    content_records pr = Some rawRecords \<and> 0 < length rawRecords \<and>
    length rawRecords < 2 ^ 32"
  then obtain ack where ack: "writeUInt32BE (length rawRecords) = Some ack"
      "length ack = 4" "be_value ack = length rawRecords"
    using writeUInt32BE_value by blast
  have "parse_avl parser w =
           upd_session (\<lambda>s. s\<lparr>packetsReceived := packetsReceived s + 1\<rparr>)
             (w\<lparr>forwarded := forwarded w @ [(authenticatedIMEI w, map formatRecord rawRecords)],
                written := written w @ [ack]\<rparr>)"
    using a ack(1) by (intro parse_avl_records) auto
  then have "written (parse_avl parser w) = written w @ [ack]"
    by (simp add: upd_session_def)
  moreover have "loop_body parser w =
      Continue ((parse_avl parser w)\<lparr>dataBuffer :=
        drop (8 + readUInt32BE (dataBuffer w) 4 + 4) (dataBuffer w)\<rparr>)"
    using a by (simp add: loop_body_def complete_packet_def Let_def)
  ultimately show "\<exists>ack w'. loop_body parser w = Continue w' \<and>
           written w' = written w @ [ack] \<and> length ack = 4 \<and>
           be_value ack = length rawRecords"
    using ack by simp
next
  assume a: "activeSessions v (sessionId v) = Some s \<and> truthy (imei s) \<and>
    complete_packet (dataBuffer v) \<and>
    parser (toString_hex (dataBuffer v)) = Some pr' \<and> parser_avl pr' \<noteq> None \<and>
    avl_data pr' = Some raws \<and> 0 < length raws \<and> length raws < 2 ^ 32"
  then obtain ack where ack: "writeUInt32BE (length raws) = Some ack"
      "length ack = 4" "be_value ack = length raws"
    using writeUInt32BE_value by blast
  show "\<exists>ack v'. loop_body_index parser clock v = Continue v' \<and>
           written v' = written v @ [ack] \<and> length ack = 4 \<and>
           be_value ack = length raws"
    using a ack
    by (auto simp: loop_body_index_def process_avl_index_def bytes_consumed_def session_imei_def
          complete_packet_def Let_def upd_session_def)
next
  assume "truthy (authenticatedIMEI w) \<and> complete_packet (dataBuffer w) \<and>
    readUInt32BE (dataBuffer w) 0 = 0 \<and>
    parser (toString_hex (dataBuffer w)) = Some pr \<and> content_records pr = Some []"
  then show "loop_body parser w
          = Continue (w\<lparr>dataBuffer :=
              drop (8 + readUInt32BE (dataBuffer w) 4 + 4) (dataBuffer w)\<rparr>)"
    by (simp add: loop_body_def parse_avl_def complete_packet_def Let_def)
next
  assume "activeSessions v (sessionId v) = Some s \<and> truthy (imei s) \<and>
    complete_packet (dataBuffer v) \<and>
    parser (toString_hex (dataBuffer v)) = Some pr' \<and> parser_avl pr' \<noteq> None \<and>
    avl_data pr' = Some []"
  then show "loop_body_index parser clock v
          = Continue (upd_session (\<lambda>s. s\<lparr>packetsReceived := packetsReceived s + 1\<rparr>)
              (v\<lparr>dataBuffer :=
                 drop (8 + readUInt32BE (dataBuffer v) 4 + 4) (dataBuffer v)\<rparr>))"
    by (auto simp: loop_body_index_def process_avl_index_def bytes_consumed_def session_imei_def
          complete_packet_def Let_def upd_session_def)
qed

theorem avl_frame_acknowledged_witness:
  "truthy (authenticatedIMEI (authenticated_with codec8_frame :: outbound conn)) \<and>
   complete_packet codec8_frame \<and> readUInt32BE codec8_frame 0 = 0 \<and>
   one_record_parser (toString_hex codec8_frame) = Some parsed_one \<and>
   content_records parsed_one = Some [decoded_record] \<and>
   avl_data parsed_one = Some [decoded_raw] \<and>
   (\<exists>ack w'. loop_body one_record_parser (authenticated_with codec8_frame) = Continue w' \<and>
      written w' = [[1], ack] \<and> length ack = 4 \<and> be_value ack = 1) \<and>
   (\<exists>ack v'. loop_body_index one_record_parser (\<lambda>i. 0) (authenticated_with codec8_frame)
        = Continue v' \<and>
      written v' = [[1], ack] \<and> length ack = 4 \<and> be_value ack = 1) \<and>
   complete_packet empty_frame \<and> readUInt32BE empty_frame 0 = 0 \<and>
   no_record_parser (toString_hex empty_frame) = Some parsed_none \<and>
   content_records parsed_none = Some [] \<and> avl_data parsed_none = Some [] \<and>
   loop_body no_record_parser (authenticated_with empty_frame)
     = Continue (authenticated_with []) \<and>
   loop_body_index no_record_parser (\<lambda>i. 0) (authenticated_with empty_frame)
     = Continue (upd_session (\<lambda>s. s\<lparr>packetsReceived := packetsReceived s + 1\<rparr>)
                   (authenticated_with []))"
  using avl_frame_acknowledged [where w = "authenticated_with codec8_frame"
      and parser = one_record_parser and pr = parsed_one and rawRecords = "[decoded_record]"
      and v = "authenticated_with codec8_frame" and s = logged_in
      and pr' = parsed_one and raws = "[decoded_raw]" and clock = "\<lambda>i. 0"]
    avl_frame_acknowledged [where w = "authenticated_with empty_frame"
      and parser = no_record_parser and pr = parsed_none and rawRecords = "[]"
      and v = "authenticated_with empty_frame" and s = logged_in
      and pr' = parsed_none and raws = "[]" and clock = "\<lambda>i. 0"]
    codec8_frame_complete empty_frame_fields
  by (simp add: authenticated_with_def state_after_def session_after_def logged_in_def
        truthy_def one_record_parser_def parsed_one_def no_record_parser_def parsed_none_def
        content_records_def avl_data_def upd_session_def)

text \<open>
  C1 as stated fails for \<open>k = 0\<close>. A device logs in and sends a well-formed Codec 8
  packet with no record, for which the parser returns an empty list. The
  explicit-framing handler removes the packet from the buffer and writes nothing: the
  only write of the connection is the login acknowledgement, and no four bytes
  \<open>00 00 00 00\<close> follow it. The parser-delegating handler does the same on such a list
  and counts the frame.
\<close>

theorem empty_frame_not_acknowledged:
  "complete_packet empty_frame \<and> readUInt32BE empty_frame 0 = 0 \<and>
   readUInt32BE empty_frame (8 + 3) = crc16_ibm (take 3 (drop 8 empty_frame)) \<and>
   content_records parsed_none = Some [] \<and> avl_data parsed_none = Some [] \<and>
   written (run no_record_parser new_connection
              [Data 1001 imei_356307042441013, Data 1001 empty_frame]) = [[1]] \<and>
   forwarded (run no_record_parser new_connection
              [Data 1001 imei_356307042441013, Data 1001 empty_frame]) = [] \<and>
   dataBuffer (run no_record_parser new_connection
              [Data 1001 imei_356307042441013, Data 1001 empty_frame]) = [] \<and>
   loop_body no_record_parser (authenticated_with empty_frame)
     = Continue (authenticated_with []) \<and>
   loop_body_index no_record_parser (\<lambda>i. 0) (authenticated_with empty_frame)
     = Continue (state_after 2 17 [] [[1]] [])"
proof -
  have "written (run no_record_parser new_connection
              [Data 1001 imei_356307042441013, Data 1001 empty_frame]) = [[1]] \<and>
        forwarded (run no_record_parser new_connection
              [Data 1001 imei_356307042441013, Data 1001 empty_frame]) = [] \<and>
        dataBuffer (run no_record_parser new_connection
              [Data 1001 imei_356307042441013, Data 1001 empty_frame]) = []"
    by (simp add: run_def new_connection_def handleGpsConnection_def imei_356307042441013_def
          empty_frame_def on_data_def append_chunk_def upd_session_def process_frames.simps
          loop_body_def parse_avl_def Let_def content_records_def no_record_parser_def
          parsed_none_def after_destroy_def readUInt16BE_def readUInt32BE_def be_value_def
          toString_ascii_def truthy_def)
  moreover have "loop_body no_record_parser (authenticated_with empty_frame)
                   = Continue (authenticated_with [])"
    by (simp add: authenticated_with_def state_after_def session_after_def empty_frame_def
          loop_body_def parse_avl_def Let_def content_records_def no_record_parser_def
          parsed_none_def readUInt32BE_def be_value_def truthy_def)
  moreover have "loop_body_index no_record_parser (\<lambda>i. 0) (authenticated_with empty_frame)
                   = Continue (state_after 2 17 [] [[1]] [])"
    by (simp add: authenticated_with_def state_after_def session_after_def empty_frame_def
          loop_body_index_def process_avl_index_def bytes_consumed_def parsed_imei_def
          session_imei_def avl_data_def Let_def no_record_parser_def parsed_none_def
          upd_session_def readUInt32BE_def be_value_def truthy_def)
       (simp add: numeral_2_eq_2)
  ultimately show ?thesis
    using empty_frame_fields by (simp add: content_records_def avl_data_def parsed_none_def)
qed

section \<open>The normalizers\<close>

lemma or_else_None_iff: "or_else x None = Some v \<longleftrightarrow> x = Some v \<and> v \<noteq> 0"
  by (auto simp: or_else_def split: option.splits)

text \<open>
  C10. In both handlers a record whose I/O element 199 has the value 0 is normalized
  to a \<^verbatim>\<open>null\<close> odometer, and the odometer is a number exactly when element 199 is
  there with a value other than 0 (in the parser-delegating handler, the first element
  of the array with id 199).
\<close>

theorem odometer_zero_is_null:
  "(io_element r 199 = Some 0 \<longrightarrow> odometer (formatRecord r) = None) \<and>
   (odometer (formatRecord r) = Some v \<longleftrightarrow> io_element r 199 = Some v \<and> v \<noteq> 0) \<and>
   (io_find r' 199 = Some 0 \<longrightarrow> odometer (formatRecord_index now r') = None) \<and>
   (odometer (formatRecord_index now r') = Some v \<longleftrightarrow> io_find r' 199 = Some v \<and> v \<noteq> 0)"
  by (simp add: formatRecord_def formatRecord_index_def or_else_None_iff) (simp add: or_else_def)

theorem odometer_zero_is_null_witness:
  "io_element record_odometer_zero 199 = Some 0 \<and>
   odometer (formatRecord record_odometer_zero) = None \<and>
   io_find raw_odometer_zero 199 = Some 0 \<and>
   odometer (formatRecord_index 1560161090000 raw_odometer_zero) = None"
  using odometer_zero_is_null [of record_odometer_zero 1 raw_odometer_zero 1560161090000]
  by (simp add: record_odometer_zero_def raw_odometer_zero_def io_element_def io_find_def)

section \<open>The framing loop of the explicit-framing handler\<close>

lemma loop_body_shrinks:
  "loop_body parser w = Continue w' \<Longrightarrow> length (dataBuffer w') < length (dataBuffer w)"
  by (auto simp: loop_body_def Let_def split: if_splits)

lemma process_frames_rel:
  assumes step: "\<And>w w'. loop_body parser w = Continue w' \<Longrightarrow> R w w'"
    and brk: "\<And>w w'. loop_body parser w = Break w' \<Longrightarrow> R w w'"
    and refl: "\<And>w. R w w"
    and trans: "\<And>a b c. R a b \<Longrightarrow> R b c \<Longrightarrow> R a c"
  shows "R w (process_frames parser w)"
proof (induction "length (dataBuffer w)" arbitrary: w rule: less_induct)
  case less
  show ?case
  proof (cases "loop_body parser w")
    case (Continue w')
    have "R w' (process_frames parser w')"
      using less loop_body_shrinks [OF Continue] by blast
    with step [OF Continue] have "R w (process_frames parser w')"
      using trans by blast
    then show ?thesis
      using Continue refl by (subst process_frames.simps) simp
  next
    case (Break w')
    with brk [OF Break] show ?thesis
      using refl by (subst process_frames.simps) simp
  qed
qed

lemma process_frames_destroyed: "destroyed (process_frames parser w) = destroyed w"
  by (rule process_frames_rel [where R = "\<lambda>a b. destroyed b = destroyed a"])
     (auto simp: loop_body_def Let_def parse_avl_def upd_session_def split: if_splits option.splits)

lemma process_frames_sessionId: "sessionId (process_frames parser w) = sessionId w"
  by (rule process_frames_rel [where R = "\<lambda>a b. sessionId b = sessionId a"])
     (auto simp: loop_body_def Let_def parse_avl_def upd_session_def split: if_splits option.splits)

lemma process_frames_length:
  "length (dataBuffer (process_frames parser w)) \<le> length (dataBuffer w)"
  by (rule process_frames_rel [where R = "\<lambda>a b. length (dataBuffer b) \<le> length (dataBuffer a)"])
     (auto simp: loop_body_def Let_def parse_avl_def upd_session_def split: if_splits option.splits)

text \<open>
  C6, as amended. When the buffer of an authenticated session holds at least 8 bytes of
  which the first four are not all zero, the explicit-framing loop logs the invalid
  preamble, empties the whole read buffer and stops. The state it leaves differs from
  the one it found in the buffer alone: nothing is written or scheduled, the socket is
  not destroyed, and the session stays registered and authenticated.
\<close>

theorem invalid_preamble_discards_buffer:
  assumes "truthy (authenticatedIMEI w)" and "8 \<le> length (dataBuffer w)"
    and "take 4 (dataBuffer w) \<noteq> [0, 0, 0, 0]"
  shows "process_frames parser w = w\<lparr>dataBuffer := []\<rparr> \<and>
         written (process_frames parser w) = written w \<and>
         forwarded (process_frames parser w) = forwarded w \<and>
         destroyed (process_frames parser w) = destroyed w \<and>
         activeSessions (process_frames parser w) = activeSessions w \<and>
         authenticatedIMEI (process_frames parser w) = authenticatedIMEI w"
proof -
  have "readUInt32BE (dataBuffer w) 0 \<noteq> 0"
    using assms take4_zero_iff [of "dataBuffer w"] by simp
  then have "loop_body parser w = Break (w\<lparr>dataBuffer := []\<rparr>)"
    using assms by (simp add: loop_body_def)
  then have "process_frames parser w = w\<lparr>dataBuffer := []\<rparr>"
    using assms by (subst process_frames.simps) auto
  then show ?thesis by simp
qed

theorem invalid_preamble_discards_buffer_witness:
  "truthy (authenticatedIMEI (authenticated_with bad_preamble_chunk :: outbound conn)) \<and>
   8 \<le> length bad_preamble_chunk \<and> take 4 bad_preamble_chunk \<noteq> [0, 0, 0, 0] \<and>
   process_frames one_record_parser (authenticated_with bad_preamble_chunk)
     = authenticated_with []"
  using invalid_preamble_discards_buffer
    [of "authenticated_with bad_preamble_chunk" one_record_parser]
  by (simp add: authenticated_with_def state_after_def session_after_def truthy_def bad_preamble_chunk_def)

text \<open>
  C6 as stated fails: after the login, a chunk that starts with the preamble
  \<open>00 00 00 01\<close> leaves the socket open and the session in the registry.
\<close>

theorem invalid_preamble_keeps_connection:
  "dataBuffer (authenticated_with bad_preamble_chunk :: outbound conn) = bad_preamble_chunk \<and>
   take 4 bad_preamble_chunk \<noteq> [0, 0, 0, 0] \<and>
   \<not> destroyed (socket_emit one_record_parser (authenticated_with []) (Data 1002 bad_preamble_chunk)) \<and>
   activeSessions (socket_emit one_record_parser (authenticated_with []) (Data 1002 bad_preamble_chunk))
     ''10.0.0.7:40312'' \<noteq> None"
  by (simp add: authenticated_with_def state_after_def session_after_def bad_preamble_chunk_def on_data_def append_chunk_def
        upd_session_def process_frames.simps loop_body_def truthy_def readUInt32BE_def be_value_def after_destroy_def
        logged_in_def)

text \<open>
  C3, as amended. While no device has logged in and the first two buffered bytes, read
  as a big-endian u16, are not 15, the data listener of the explicit-framing handler
  only appends the chunk and updates the statistics of the session (the buffer being
  within its cap): it writes nothing, authenticates nothing, keeps every byte buffered,
  does not destroy the socket, and the session stays in the registry.
\<close>

theorem wrong_login_length_waits:
  assumes "activeSessions w (sessionId w) \<noteq> None" and "\<not> truthy (authenticatedIMEI w)"
    and "2 \<le> length (dataBuffer w @ chunk)"
    and "readUInt16BE (dataBuffer w @ chunk) 0 \<noteq> 15"
    and "length (dataBuffer w @ chunk) \<le> 65536"
  shows "on_data parser now w chunk = append_chunk now chunk w \<and>
         written (on_data parser now w chunk) = written w \<and>
         destroyed (on_data parser now w chunk) = destroyed w \<and>
         authenticatedIMEI (on_data parser now w chunk) = authenticatedIMEI w \<and>
         dataBuffer (on_data parser now w chunk) = dataBuffer w @ chunk \<and>
         activeSessions (on_data parser now w chunk) (sessionId w) \<noteq> None"
proof -
  let ?w1 = "append_chunk now chunk w"
  have buf: "dataBuffer ?w1 = dataBuffer w @ chunk"
    and auth: "authenticatedIMEI ?w1 = authenticatedIMEI w"
    by (simp_all add: append_chunk_def upd_session_def)
  have "loop_body parser ?w1 = Break ?w1"
    using assms by (simp add: loop_body_def buf auth)
  then have "process_frames parser ?w1 = ?w1"
    by (subst process_frames.simps) simp
  then have "on_data parser now w chunk = ?w1"
    using assms by (auto simp: on_data_def Let_def buf)
  then show ?thesis
    using assms(1) by (auto simp: append_chunk_def upd_session_def)
qed

theorem wrong_login_length_waits_witness:
  "activeSessions (new_connection :: outbound conn) (sessionId (new_connection :: outbound conn)) \<noteq> None \<and>
   \<not> truthy (authenticatedIMEI (new_connection :: outbound conn)) \<and>
   readUInt16BE login_000E 0 = 14 \<and>
   on_data throwing_parser 1001 new_connection login_000E = append_chunk 1001 login_000E new_connection"
  using wrong_login_length_waits [of new_connection login_000E throwing_parser 1001]
  by (simp add: new_connection_def handleGpsConnection_def truthy_def login_000E_def
        readUInt16BE_def be_value_def)

text \<open>
  C3 as stated fails: a new connection that receives \<open>00 0E\<close> and 14 digits keeps its
  socket open, its session in the registry and the 16 bytes in its buffer.
\<close>

theorem wrong_login_length_keeps_connection:
  "readUInt16BE login_000E 0 = 14 \<and>
   \<not> destroyed (socket_emit throwing_parser new_connection (Data 1001 login_000E)) \<and>
   activeSessions (socket_emit throwing_parser new_connection (Data 1001 login_000E))
     ''10.0.0.7:40312'' \<noteq> None \<and>
   dataBuffer (socket_emit throwing_parser new_connection (Data 1001 login_000E)) = login_000E"
  by (simp add: new_connection_def handleGpsConnection_def on_data_def append_chunk_def
        upd_session_def process_frames.simps loop_body_def truthy_def login_000E_def readUInt16BE_def be_value_def
        after_destroy_def)

section \<open>The buffer cap\<close>

lemma loop_body_index_shrinks:
  "loop_body_index parser clock w = Continue w' \<Longrightarrow>
     length (dataBuffer w') < length (dataBuffer w)"
  by (auto simp: loop_body_index_def process_avl_index_def Let_def upd_session_def split: if_splits option.splits)

lemma process_frames_index_rel:
  assumes step: "\<And>w w'. loop_body_index parser clock w = Continue w' \<Longrightarrow> R w w'"
    and brk: "\<And>w w'. loop_body_index parser clock w = Break w' \<Longrightarrow> R w w'"
    and refl: "\<And>w. R w w"
    and trans: "\<And>a b c. R a b \<Longrightarrow> R b c \<Longrightarrow> R a c"
  shows "R w (process_frames_index parser clock w)"
proof (induction "length (dataBuffer w)" arbitrary: w rule: less_induct)
  case less
  show ?case
  proof (cases "loop_body_index parser clock w")
    case (Continue w')
    have "R w' (process_frames_index parser clock w')"
      using less loop_body_index_shrinks [OF Continue] by blast
    with step [OF Continue] have "R w (process_frames_index parser clock w')"
      using trans by blast
    then show ?thesis
      using Continue refl by (subst process_frames_index.simps) simp
  next
    case (Break w')
    with brk [OF Break] show ?thesis
      using refl by (subst process_frames_index.simps) simp
  qed
qed

lemma loop_body_index_length:
  "loop_body_index parser clock w = Break w'
     \<Longrightarrow> length (dataBuffer w') \<le> length (dataBuffer w)"
  by (auto simp: loop_body_index_def process_avl_index_def Let_def upd_session_def split: if_splits option.splits)

lemma process_frames_index_length:
  "length (dataBuffer (process_frames_index parser clock w)) \<le> length (dataBuffer w)"
  by (rule process_frames_index_rel
        [where R = "\<lambda>a b. length (dataBuffer b) \<le> length (dataBuffer a)"])
     (auto dest: loop_body_index_length loop_body_index_shrinks less_imp_le)

lemma cleanup_dataBuffer: "dataBuffer (cleanup w) = []"
  by (simp add: cleanup_def)

lemma on_data_capped:
  assumes "length (dataBuffer w) \<le> 65536"
  shows "destroyed (on_data parser now w chunk) \<or>
         length (dataBuffer (on_data parser now w chunk)) \<le> 65536"
proof (cases "activeSessions w (sessionId w)")
  case None
  then show ?thesis using assms by (simp add: on_data_def)
next
  case (Some s)
  let ?w1 = "append_chunk now chunk w"
  show ?thesis
  proof (cases "length (dataBuffer ?w1) > 64 * 1024")
    case True
    then show ?thesis using Some by (simp add: on_data_def Let_def socket_destroy_def)
  next
    case False
    then have "length (dataBuffer (process_frames parser ?w1)) \<le> 65536"
      using process_frames_length [of parser ?w1] by simp
    then show ?thesis using Some False by (simp add: on_data_def Let_def)
  qed
qed

lemma on_data_index_capped:
  assumes "length (dataBuffer w) \<le> 65536"
  shows "destroyed (on_data_index parser clock now w chunk) \<or>
         length (dataBuffer (on_data_index parser clock now w chunk)) \<le> 65536"
proof (cases "activeSessions w (sessionId w)")
  case None
  then show ?thesis using assms by (simp add: on_data_index_def)
next
  case (Some s)
  let ?w1 = "append_chunk now chunk w"
  show ?thesis
  proof (cases "length (dataBuffer ?w1) > 64 * 1024")
    case True
    then show ?thesis using Some by (simp add: on_data_index_def Let_def socket_destroy_def)
  next
    case False
    then have "length (dataBuffer (process_frames_index parser clock ?w1)) \<le> 65536"
      using process_frames_index_length [of parser clock ?w1] by simp
    then show ?thesis using Some False by (simp add: on_data_index_def Let_def)
  qed
qed

lemma socket_emit_capped:
  assumes "length (dataBuffer w) \<le> 65536"
  shows "length (dataBuffer (socket_emit parser w e)) \<le> 65536"
proof (cases e)
  case (Data now chunk)
  then show ?thesis
    using on_data_capped [OF assms, of parser now chunk]
    by (auto simp: after_destroy_def cleanup_def)
qed (use assms in \<open>simp_all add: cleanup_def after_destroy_def socket_destroy_def\<close>)

lemma socket_emit_index_capped:
  assumes "length (dataBuffer w) \<le> 65536"
  shows "length (dataBuffer (socket_emit_index parser clock w e)) \<le> 65536"
proof (cases e)
  case (Data now chunk)
  then show ?thesis
    using on_data_index_capped [OF assms, of parser clock now chunk]
    by (auto simp: after_destroy_def cleanup_def)
qed (use assms in \<open>simp_all add: cleanup_def after_destroy_def socket_destroy_def\<close>)

lemma run_capped:
  "length (dataBuffer w) \<le> 65536 \<Longrightarrow> length (dataBuffer (run parser w evs)) \<le> 65536"
  unfolding run_def by (induction evs arbitrary: w) (simp_all add: socket_emit_capped)

lemma run_index_capped:
  "length (dataBuffer w) \<le> 65536 \<Longrightarrow>
     length (dataBuffer (run_index parser clock w evs)) \<le> 65536"
  unfolding run_index_def by (induction evs arbitrary: w) (simp_all add: socket_emit_index_capped)

lemma on_data_overflow:
  assumes "activeSessions w (sessionId w) \<noteq> None"
    and "65536 < length (dataBuffer w @ chunk)"
  shows "on_data parser now w chunk = socket_destroy (append_chunk now chunk w)"
  using assms by (auto simp: on_data_def Let_def append_chunk_def upd_session_def)

lemma on_data_index_overflow:
  assumes "activeSessions w (sessionId w) \<noteq> None"
    and "65536 < length (dataBuffer w @ chunk)"
  shows "on_data_index parser clock now w chunk = socket_destroy (append_chunk now chunk w)"
  using assms by (auto simp: on_data_index_def Let_def append_chunk_def upd_session_def)

text \<open>
  C5. Between two listeners of a connection the read buffer never holds more than
  65,536 bytes, whatever events arrive in whatever order; here the \<^verbatim>\<open>'close'\<close> that
  follows \<^verbatim>\<open>socket.destroy()\<close> counts as part of the listener that destroyed the socket.
  When a data listener returns, the buffer is within the cap or the socket is destroyed.
  A chunk that takes the buffer of a registered session beyond the cap destroys the
  socket: nothing is written or scheduled, and the session leaves the registry. Both
  handlers start with the same statements and have the property.
\<close>

theorem read_buffer_capped:
  "length (dataBuffer (run parser (handleGpsConnection sessions sid t0) evs)) \<le> 65536 \<and>
   length (dataBuffer (run_index parser clock (handleGpsConnection sessions sid t0) evs)) \<le> 65536 \<and>
   (length (dataBuffer w) \<le> 65536 \<longrightarrow>
      destroyed (on_data parser now w chunk) \<or>
      length (dataBuffer (on_data parser now w chunk)) \<le> 65536) \<and>
   (length (dataBuffer v) \<le> 65536 \<longrightarrow>
      destroyed (on_data_index parser clock now v chunk) \<or>
      length (dataBuffer (on_data_index parser clock now v chunk)) \<le> 65536) \<and>
   (activeSessions w (sessionId w) \<noteq> None \<and> 65536 < length (dataBuffer w @ chunk) \<longrightarrow>
      destroyed (on_data parser now w chunk) \<and>
      written (on_data parser now w chunk) = written w \<and>
      forwarded (on_data parser now w chunk) = forwarded w \<and>
      activeSessions (socket_emit parser w (Data now chunk)) (sessionId w) = None) \<and>
   (activeSessions v (sessionId v) \<noteq> None \<and> 65536 < length (dataBuffer v @ chunk) \<longrightarrow>
      destroyed (on_data_index parser clock now v chunk) \<and>
      written (on_data_index parser clock now v chunk) = written v \<and>
      forwarded (on_data_index parser clock now v chunk) = forwarded v \<and>
      activeSessions (socket_emit_index parser clock v (Data now chunk)) (sessionId v) = None)"
proof (intro conjI impI)
  show "length (dataBuffer (run parser (handleGpsConnection sessions sid t0) evs)) \<le> 65536"
    by (rule run_capped) (simp add: handleGpsConnection_def)
  show "length (dataBuffer (run_index parser clock (handleGpsConnection sessions sid t0) evs))
          \<le> 65536"
    by (rule run_index_capped) (simp add: handleGpsConnection_def)
qed (simp_all add: on_data_capped on_data_index_capped on_data_overflow on_data_index_overflow
       socket_destroy_def append_chunk_def upd_session_def after_destroy_def cleanup_def)

theorem read_buffer_capped_witness:
  "activeSessions (new_connection :: outbound conn) (sessionId (new_connection :: outbound conn))
     \<noteq> None \<and>
   65536 < length (dataBuffer (new_connection :: outbound conn) @ replicate 65537 0) \<and>
   destroyed (on_data throwing_parser 1001 new_connection (replicate 65537 0)) \<and>
   written (on_data throwing_parser 1001 new_connection (replicate 65537 0))
     = written (new_connection :: outbound conn) \<and>
   activeSessions (socket_emit throwing_parser new_connection (Data 1001 (replicate 65537 0)))
     (sessionId (new_connection :: outbound conn)) = None \<and>
   destroyed (on_data_index throwing_parser (\<lambda>i. 0) 1001 new_connection (replicate 65537 0)) \<and>
   length (dataBuffer (authenticated_with noise :: outbound conn)) \<le> 65536 \<and>
   (destroyed (on_data throwing_parser 1002 (authenticated_with noise) codec8_frame) \<or>
    length (dataBuffer (on_data throwing_parser 1002 (authenticated_with noise) codec8_frame))
      \<le> 65536) \<and>
   length (dataBuffer (run throwing_parser (handleGpsConnection Map.empty ''10.0.0.7:40312'' 1000)
      [Data 1001 imei_356307042441013, Data 1002 (replicate 65537 0), Data 1003 noise])) \<le> 65536"
proof -
  have h: "activeSessions (new_connection :: outbound conn)
             (sessionId (new_connection :: outbound conn)) \<noteq> None \<and>
           65536 < length (dataBuffer (new_connection :: outbound conn) @ replicate 65537 0)"
    and h': "activeSessions (new_connection :: outbound_base conn)
             (sessionId (new_connection :: outbound_base conn)) \<noteq> None \<and>
           65536 < length (dataBuffer (new_connection :: outbound_base conn) @ replicate 65537 0)"
    by (simp_all add: new_connection_def handleGpsConnection_def)
  have k: "length (dataBuffer (authenticated_with noise :: outbound conn)) \<le> 65536"
    by (simp add: authenticated_with_def state_after_def noise_def)
  show ?thesis
    using h h' k
      read_buffer_capped [where w = new_connection and v = new_connection
        and chunk = "replicate 65537 0" and parser = throwing_parser and now = 1001
        and clock = "\<lambda>i. 0" and sessions = Map.empty and sid = "''10.0.0.7:40312''"
        and ?t0.0 = 1000
        and evs = "[Data 1001 imei_356307042441013, Data 1002 (replicate 65537 0), Data 1003 noise]"]
      read_buffer_capped [where w = "authenticated_with noise" and v = new_connection
        and chunk = codec8_frame and parser = throwing_parser and now = 1002
        and clock = "\<lambda>i. 0" and sessions = Map.empty and sid = "''10.0.0.7:40312''"
        and ?t0.0 = 1000 and evs = "[]"]
    by blast
qed

section \<open>The IMEI of an authenticated session\<close>

lemma loop_body_imei_inv:
  "loop_body parser w = Continue w' \<or> loop_body parser w = Break w' \<Longrightarrow>
     imei_inv w \<Longrightarrow> imei_inv w'"
  by (auto simp: loop_body_def Let_def parse_avl_def upd_session_def imei_inv_def
        toString_ascii_def split: if_splits option.splits)

lemma process_frames_imei_inv: "imei_inv w \<Longrightarrow> imei_inv (process_frames parser w)"
  using process_frames_rel [where R = "\<lambda>a b. imei_inv a \<longrightarrow> imei_inv b" and parser = parser and w = w]
    loop_body_imei_inv
  by blast

lemma socket_emit_imei_inv: "imei_inv w \<Longrightarrow> imei_inv (socket_emit parser w e)"
proof (cases e)
  case (Data now chunk)
  assume inv: "imei_inv w"
  have "imei_inv (append_chunk now chunk w)"
    using inv by (auto simp: imei_inv_def append_chunk_def upd_session_def split: option.splits)
  then have "imei_inv (on_data parser now w chunk)"
    using inv process_frames_imei_inv [of "append_chunk now chunk w" parser]
    by (auto simp: on_data_def Let_def socket_destroy_def imei_inv_def split: option.splits)
  then show ?thesis
    using Data by (auto simp: after_destroy_def cleanup_def imei_inv_def split: option.splits)
qed (auto simp: cleanup_def after_destroy_def socket_destroy_def imei_inv_def split: option.splits)

lemma run_imei_inv: "imei_inv w \<Longrightarrow> imei_inv (run parser w evs)"
  unfolding run_def by (induction evs arbitrary: w) (simp_all add: socket_emit_imei_inv)

lemma socket_emit_sessionId: "sessionId (socket_emit parser w e) = sessionId w"
  by (cases e)
     (auto simp: on_data_def Let_def after_destroy_def cleanup_def socket_destroy_def
        append_chunk_def upd_session_def process_frames_sessionId split: option.splits)

lemma run_sessionId: "sessionId (run parser w evs) = sessionId w"
  unfolding run_def by (induction evs arbitrary: w) (simp_all add: socket_emit_sessionId)

lemma login_non_digits_run:
  "authenticatedIMEI (run throwing_parser new_connection [Data 1001 login_non_digits])
     = Some ''GPS-TRACKER-007'' \<and>
   written (run throwing_parser new_connection [Data 1001 login_non_digits]) = [[1]] \<and>
   dataBuffer (run throwing_parser new_connection [Data 1001 login_non_digits]) = [] \<and>
   map_option imei (activeSessions (run throwing_parser new_connection [Data 1001 login_non_digits])
      ''10.0.0.7:40312'') = Some (Some ''GPS-TRACKER-007'')"
  by (simp add: run_def new_connection_def handleGpsConnection_def on_data_def append_chunk_def
        upd_session_def process_frames.simps loop_body_def truthy_def login_non_digits_def readUInt16BE_def
        be_value_def after_destroy_def toString_ascii_def Let_def char_of_def bit_Suc_0_iff)

lemma truthy_simps [simp]: "\<not> truthy None" "truthy (Some s) \<longleftrightarrow> s \<noteq> []"
  by (simp_all add: truthy_def)

lemma truthy_parsed_imei [simp]: "truthy (parsed_imei pr) \<longleftrightarrow> truthy (parser_imei pr)"
  by (simp add: parsed_imei_def)

lemma parsed_imei_truthy: "truthy (parser_imei pr) \<Longrightarrow> parsed_imei pr = parser_imei pr"
  by (simp add: parsed_imei_def)

lemma process_avl_index_authenticatedIMEI:
  "process_avl_index clock pr w = Continue w' \<or> process_avl_index clock pr w = Break w' \<Longrightarrow>
     authenticatedIMEI w' = authenticatedIMEI w"
  by (auto simp: process_avl_index_def Let_def split: option.splits if_splits)

lemma loop_body_index_parser_imei:
  assumes "loop_body_index parser clock w = Continue w' \<or> loop_body_index parser clock w = Break w'"
    and "parser_imei_inv parser w"
  shows "parser_imei_inv parser w'"
proof (cases "parser (toString_hex (dataBuffer w))")
  case None
  with assms show ?thesis by (simp add: loop_body_index_def)
next
  case (Some pr)
  let ?n = "bytes_consumed pr (dataBuffer w)"
  let ?w1 = "upd_session (\<lambda>s. s\<lparr>packetsReceived := packetsReceived s + 1\<rparr>)
               (w\<lparr>dataBuffer := drop ?n (dataBuffer w)\<rparr>)"
  have w1: "authenticatedIMEI ?w1 = authenticatedIMEI w" by (simp add: upd_session_def)
  consider (clear) "?n = 0 \<or> ?n > length (dataBuffer w)"
    | (login) "\<not> (?n = 0 \<or> ?n > length (dataBuffer w))"
        "truthy (parsed_imei pr) \<and> \<not> truthy (session_imei ?w1)"
    | (avl) "\<not> (?n = 0 \<or> ?n > length (dataBuffer w))"
        "\<not> (truthy (parsed_imei pr) \<and> \<not> truthy (session_imei ?w1))"
    by blast
  then show ?thesis
  proof cases
    case clear
    with assms Some show ?thesis
      by (auto simp: loop_body_index_def Let_def parser_imei_inv_def)
  next
    case login
    then have "authenticatedIMEI w' = parser_imei pr" "truthy (parser_imei pr)"
      using assms(1) Some
      by (auto simp: loop_body_index_def Let_def upd_session_def parsed_imei_truthy)
    with Some show ?thesis
      by (auto simp: parser_imei_inv_def truthy_def split: option.splits)
  next
    case avl
    then have "process_avl_index clock pr ?w1 = Continue w' \<or>
               process_avl_index clock pr ?w1 = Break w'"
      using assms(1) Some by (auto simp: loop_body_index_def Let_def)
    from process_avl_index_authenticatedIMEI [OF this] w1 assms(2) show ?thesis
      by (simp add: parser_imei_inv_def)
  qed
qed

lemma process_frames_index_parser_imei:
  "parser_imei_inv parser w \<Longrightarrow> parser_imei_inv parser (process_frames_index parser clock w)"
  using process_frames_index_rel
    [where R = "\<lambda>a b. parser_imei_inv parser a \<longrightarrow> parser_imei_inv parser b"
       and parser = parser and clock = clock and w = w]
    loop_body_index_parser_imei
  by blast

lemma socket_emit_index_parser_imei:
  "parser_imei_inv parser w \<Longrightarrow> parser_imei_inv parser (socket_emit_index parser clock w e)"
proof (cases e)
  case (Data now chunk)
  assume inv: "parser_imei_inv parser w"
  have "parser_imei_inv parser (append_chunk now chunk w)"
    using inv by (simp add: parser_imei_inv_def append_chunk_def upd_session_def)
  then have "parser_imei_inv parser (on_data_index parser clock now w chunk)"
    using inv process_frames_index_parser_imei [of parser "append_chunk now chunk w" clock]
    by (auto simp: on_data_index_def Let_def socket_destroy_def parser_imei_inv_def
          split: option.splits)
  then show ?thesis
    using Data by (auto simp: after_destroy_def cleanup_def parser_imei_inv_def)
qed (auto simp: cleanup_def after_destroy_def socket_destroy_def parser_imei_inv_def)

lemma run_index_parser_imei:
  "parser_imei_inv parser w \<Longrightarrow> parser_imei_inv parser (run_index parser clock w evs)"
  unfolding run_index_def
  by (induction evs arbitrary: w) (simp_all add: socket_emit_index_parser_imei)

lemma run_index_new_connection:
  "truthy (authenticatedIMEI (run_index parser clock (handleGpsConnection sessions sid t0) evs))
   \<Longrightarrow> \<exists>hex pr. parser hex = Some pr \<and>
         parser_imei pr = authenticatedIMEI (run_index parser clock (handleGpsConnection sessions sid t0) evs)"
proof -
  let ?w = "run_index parser clock (handleGpsConnection sessions sid t0) evs"
  assume t: "truthy (authenticatedIMEI ?w)"
  have "parser_imei_inv parser (handleGpsConnection sessions sid t0 :: outbound_base conn)"
    by (simp add: parser_imei_inv_def handleGpsConnection_def)
  then have "parser_imei_inv parser ?w" by (rule run_index_parser_imei)
  with t show ?thesis
    by (auto simp: parser_imei_inv_def truthy_def split: option.splits)
qed

text \<open>
  C4, as amended. In every state that a connection of the explicit-framing handler
  reaches, an \<^verbatim>\<open>authenticatedIMEI\<close> that is set is a string of exactly 15 characters, and
  it is the \<^verbatim>\<open>imei\<close> of the session while the session is registered. The 15 bytes are
  not checked to be digits: on a session that has not logged in, any buffer of at least
  17 bytes that starts with \<open>00 0F\<close> authenticates it, with the ASCII reading of the 15
  bytes that follow as IMEI, and is answered with the byte \<open>01\<close>. In the
  parser-delegating handler the IMEI of an authenticated session is a non-empty string
  that the parser returned as \<^verbatim>\<open>imei\<close>.
\<close>

theorem authenticated_imei_has_15_characters:
  "(truthy (authenticatedIMEI (run parser (handleGpsConnection sessions sid t0) evs)) \<longrightarrow>
      (\<exists>s. authenticatedIMEI (run parser (handleGpsConnection sessions sid t0) evs) = Some s \<and>
           length s = 15 \<and>
           (activeSessions (run parser (handleGpsConnection sessions sid t0) evs) sid = None \<or>
            map_option imei (activeSessions (run parser (handleGpsConnection sessions sid t0) evs) sid)
              = Some (Some s)))) \<and>
   (\<not> truthy (authenticatedIMEI w) \<and> 17 \<le> length (dataBuffer w) \<and>
    readUInt16BE (dataBuffer w) 0 = 15 \<longrightarrow>
      (\<exists>w'. loop_body parser w = Continue w' \<and>
            authenticatedIMEI w' = Some (toString_ascii (take 15 (drop 2 (dataBuffer w)))) \<and>
            written w' = written w @ [[1]])) \<and>
   (truthy (authenticatedIMEI (run_index parser clock (handleGpsConnection sessions sid t0) evs)) \<longrightarrow>
      (\<exists>hex pr. parser hex = Some pr \<and>
         parser_imei pr
           = authenticatedIMEI (run_index parser clock (handleGpsConnection sessions sid t0) evs)))"
proof (intro conjI impI)
  let ?w = "run parser (handleGpsConnection sessions sid t0) evs"
  assume t: "truthy (authenticatedIMEI ?w)"
  have "imei_inv (handleGpsConnection sessions sid t0 :: outbound conn)"
    by (simp add: imei_inv_def handleGpsConnection_def)
  then have inv: "imei_inv ?w" by (rule run_imei_inv)
  have sid: "sessionId ?w = sid"
    by (simp add: run_sessionId handleGpsConnection_def)
  from t obtain s where s: "authenticatedIMEI ?w = Some s"
    by (auto simp: truthy_def split: option.splits)
  with inv sid show "\<exists>s. authenticatedIMEI ?w = Some s \<and> length s = 15 \<and>
           (activeSessions ?w sid = None \<or> map_option imei (activeSessions ?w sid) = Some (Some s))"
    by (auto simp: imei_inv_def split: option.splits)
next
  assume "\<not> truthy (authenticatedIMEI w) \<and> 17 \<le> length (dataBuffer w) \<and>
    readUInt16BE (dataBuffer w) 0 = 15"
  then show "\<exists>w'. loop_body parser w = Continue w' \<and>
            authenticatedIMEI w' = Some (toString_ascii (take 15 (drop 2 (dataBuffer w)))) \<and>
            written w' = written w @ [[1]]"
    by (simp add: loop_body_def Let_def upd_session_def)
next
  assume "truthy (authenticatedIMEI (run_index parser clock (handleGpsConnection sessions sid t0) evs))"
  then show "\<exists>hex pr. parser hex = Some pr \<and>
         parser_imei pr
           = authenticatedIMEI (run_index parser clock (handleGpsConnection sessions sid t0) evs)"
    by (rule run_index_new_connection)
qed

lemma imei_parser_run:
  "authenticatedIMEI (run_index imei_parser (\<lambda>i. 0) new_connection [Data 1001 imei_356307042441013])
     = Some ''356307042441013''"
  by (simp add: run_index_def new_connection_def handleGpsConnection_def on_data_index_def
        append_chunk_def upd_session_def process_frames_index.simps loop_body_index_def
        bytes_consumed_def session_imei_def parsed_imei_def imei_parser_def
        imei_356307042441013_def after_destroy_def Let_def)

theorem authenticated_imei_has_15_characters_witness:
  "truthy (authenticatedIMEI (run throwing_parser new_connection [Data 1001 login_non_digits])) \<and>
   (\<exists>s. authenticatedIMEI (run throwing_parser new_connection [Data 1001 login_non_digits]) = Some s \<and>
        length s = 15) \<and>
   \<not> truthy (authenticatedIMEI (new_connection\<lparr>dataBuffer := login_non_digits\<rparr> :: outbound conn)) \<and>
   readUInt16BE login_non_digits 0 = 15 \<and>
   (\<exists>w'. loop_body throwing_parser (new_connection\<lparr>dataBuffer := login_non_digits\<rparr>) = Continue w' \<and>
      authenticatedIMEI w' = Some (toString_ascii (take 15 (drop 2 login_non_digits)))) \<and>
   truthy (authenticatedIMEI
     (run_index imei_parser (\<lambda>i. 0) new_connection [Data 1001 imei_356307042441013])) \<and>
   (\<exists>hex pr. imei_parser hex = Some pr \<and>
      parser_imei pr = authenticatedIMEI
        (run_index imei_parser (\<lambda>i. 0) new_connection [Data 1001 imei_356307042441013]))"
proof -
  have t: "truthy (authenticatedIMEI (run throwing_parser
             (handleGpsConnection Map.empty ''10.0.0.7:40312'' 1000) [Data 1001 login_non_digits]))"
    using login_non_digits_run by (simp add: new_connection_def)
  have h: "\<not> truthy (authenticatedIMEI (new_connection\<lparr>dataBuffer := login_non_digits\<rparr> :: outbound conn)) \<and>
      17 \<le> length (dataBuffer (new_connection\<lparr>dataBuffer := login_non_digits\<rparr> :: outbound conn)) \<and>
      readUInt16BE (dataBuffer (new_connection\<lparr>dataBuffer := login_non_digits\<rparr> :: outbound conn)) 0 = 15"
    by (simp add: new_connection_def handleGpsConnection_def login_non_digits_def
          readUInt16BE_def be_value_def)
  have t': "truthy (authenticatedIMEI (run_index imei_parser (\<lambda>i. 0)
              (handleGpsConnection Map.empty ''10.0.0.7:40312'' 1000)
              [Data 1001 imei_356307042441013]))"
    using imei_parser_run by (simp add: new_connection_def)
  have 1: "\<exists>s. authenticatedIMEI (run throwing_parser new_connection [Data 1001 login_non_digits]) = Some s \<and>
        length s = 15"
    using t authenticated_imei_has_15_characters
      [where parser = throwing_parser and sessions = Map.empty and sid = "''10.0.0.7:40312''"
         and ?t0.0 = 1000 and evs = "[Data 1001 login_non_digits]"
         and w = "new_connection" and clock = "\<lambda>i. 0"]
    unfolding new_connection_def by blast
  have "\<exists>w'. loop_body throwing_parser (new_connection\<lparr>dataBuffer := login_non_digits\<rparr>) = Continue w' \<and>
      authenticatedIMEI w' = Some (toString_ascii (take 15 (drop 2
        (dataBuffer (new_connection\<lparr>dataBuffer := login_non_digits\<rparr> :: outbound conn))))) \<and>
      written w' = written (new_connection\<lparr>dataBuffer := login_non_digits\<rparr> :: outbound conn) @ [[1]]"
    using h authenticated_imei_has_15_characters
      [where parser = throwing_parser and w = "new_connection\<lparr>dataBuffer := login_non_digits\<rparr>"
         and sessions = Map.empty and sid = "''10.0.0.7:40312''" and ?t0.0 = 1000 and evs = "[]"
         and clock = "\<lambda>i. 0"]
    by blast
  then have 2: "\<exists>w'. loop_body throwing_parser (new_connection\<lparr>dataBuffer := login_non_digits\<rparr>) = Continue w' \<and>
      authenticatedIMEI w' = Some (toString_ascii (take 15 (drop 2 login_non_digits)))"
    by auto
  have 3: "\<exists>hex pr. imei_parser hex = Some pr \<and>
      parser_imei pr = authenticatedIMEI
        (run_index imei_parser (\<lambda>i. 0) new_connection [Data 1001 imei_356307042441013])"
    using t' authenticated_imei_has_15_characters
      [where parser = imei_parser and sessions = Map.empty and sid = "''10.0.0.7:40312''"
         and ?t0.0 = 1000 and evs = "[Data 1001 imei_356307042441013]" and clock = "\<lambda>i. 0"
         and w = "new_connection"]
    unfolding new_connection_def by blast
  show ?thesis
    using t t' h 1 2 3 by (simp add: new_connection_def)
qed

text \<open>
  C4 as stated fails: the login frame \<open>00 0F\<close> followed by the 15 bytes of
  \<^verbatim>\<open>GPS-TRACKER-007\<close> authenticates the session with that text as its IMEI.
\<close>

theorem non_digit_login_authenticates:
  "length (drop 2 login_non_digits) = 15 \<and>
   authenticatedIMEI (run throwing_parser new_connection [Data 1001 login_non_digits])
     = Some ''GPS-TRACKER-007'' \<and>
   \<not> decimal_digits ''GPS-TRACKER-007'' \<and>
   written (run throwing_parser new_connection [Data 1001 login_non_digits]) = [[1]]"
  using login_non_digits_run by (simp add: decimal_digits_def login_non_digits_def)

section \<open>Chunking\<close>

lemma parse_avl_authenticatedIMEI [simp]:
  "authenticatedIMEI (parse_avl parser w) = authenticatedIMEI w"
  by (simp add: parse_avl_def Let_def upd_session_def split: option.splits)

lemma parse_avl_dataBuffer [simp]: "dataBuffer (parse_avl parser w) = dataBuffer w"
  by (simp add: parse_avl_def Let_def upd_session_def split: option.splits)

lemma loop_body_login:
  assumes "loop_body parser w = Continue w'" and "\<not> truthy (authenticatedIMEI w)"
  shows "17 \<le> length (dataBuffer w)" and "readUInt16BE (dataBuffer w) 0 = 15"
    and "dataBuffer w' = drop 17 (dataBuffer w)" and "truthy (authenticatedIMEI w')"
  using assms
  by (auto simp: loop_body_def Let_def upd_session_def toString_ascii_def split: if_splits)

lemma loop_body_packet:
  assumes "loop_body parser w = Continue w'" and "truthy (authenticatedIMEI w)"
  shows "8 \<le> length (dataBuffer w)" and "readUInt32BE (dataBuffer w) 0 = 0"
    and "8 + readUInt32BE (dataBuffer w) 4 + 4 \<le> length (dataBuffer w)"
  using assms by (auto simp: loop_body_def Let_def split: if_splits)

lemma loop_body_append_login:
  assumes "loop_body parser w = Continue w'" and "\<not> truthy (authenticatedIMEI w)"
  shows "loop_body parser (w\<lparr>dataBuffer := dataBuffer w @ y\<rparr>)
           = Continue (w'\<lparr>dataBuffer := dataBuffer w' @ y\<rparr>)"
  using assms loop_body_login(1,2) [OF assms]
  by (auto simp: loop_body_def Let_def upd_session_def readUInt16BE_append)

lemma loop_body_Break:
  assumes "loop_body parser w = Break w'"
  shows "(truthy (authenticatedIMEI w) \<and> 8 \<le> length (dataBuffer w) \<and>
          readUInt32BE (dataBuffer w) 0 \<noteq> 0) \<or> w' = w"
  using assms by (auto simp: loop_body_def Let_def split: if_splits)

lemma process_frames_Break_same:
  "loop_body parser w = Break w \<Longrightarrow> process_frames parser w = w"
  by (subst process_frames.simps) simp

lemma preamble_fault_Continue:
  assumes "loop_body parser w = Continue w'"
  shows "preamble_fault (truthy (authenticatedIMEI w)) (dataBuffer w)
           = preamble_fault (truthy (authenticatedIMEI w')) (dataBuffer w')"
proof (cases "\<not> truthy (authenticatedIMEI w) \<and> 17 \<le> length (dataBuffer w) \<and>
              readUInt16BE (dataBuffer w) 0 = 15")
  case True
  then have "truthy (authenticatedIMEI w')" "dataBuffer w' = drop 17 (dataBuffer w)"
    using assms by (auto simp: loop_body_def Let_def upd_session_def toString_ascii_def)
  then show ?thesis
    using True by (subst preamble_fault.simps) auto
next
  case False
  then have auth: "truthy (authenticatedIMEI w)" and len: "8 \<le> length (dataBuffer w)"
    and pre: "readUInt32BE (dataBuffer w) 0 = 0"
    and whole: "8 + readUInt32BE (dataBuffer w) 4 + 4 \<le> length (dataBuffer w)"
    using assms by (auto simp: loop_body_def Let_def split: if_splits)
  have w': "w' = (parse_avl parser w)\<lparr>dataBuffer :=
               drop (8 + readUInt32BE (dataBuffer w) 4 + 4) (dataBuffer w)\<rparr>"
    using assms False auth len pre whole by (simp add: loop_body_def Let_def)
  show ?thesis
    using auth len pre whole by (subst preamble_fault.simps) (auto simp: w')
qed

lemma preamble_fault_here:
  "8 \<le> length buf \<Longrightarrow> readUInt32BE buf 0 \<noteq> 0 \<Longrightarrow> preamble_fault True (buf @ y)"
  by (subst preamble_fault.simps) (auto simp: readUInt32BE_append)

lemma packet_followed_login:
  assumes "loop_body parser w = Continue w'" and "\<not> truthy (authenticatedIMEI w)"
  shows "packet_followed False (dataBuffer w @ y) = packet_followed True (dataBuffer w' @ y)"
  using loop_body_login(1,2,3) [OF assms]
  by (simp add: packet_followed_def readUInt16BE_append)

lemma packet_followed_here:
  assumes "loop_body parser w = Continue w'" and "truthy (authenticatedIMEI w)" and "y \<noteq> []"
  shows "packet_followed True (dataBuffer w @ y)"
  using loop_body_packet [OF assms(1,2)] assms(3)
  by (cases y) (simp_all add: packet_followed_def readUInt32BE_append)

text \<open>
  The loop on a buffer that grows by \<open>y\<close>. While no packet is followed by other bytes,
  the only passes that continue are logins, which do not call the parser, so the loop
  may run before \<open>y\<close> arrives and again after.
\<close>

lemma process_frames_append:
  assumes "y \<noteq> []"
  shows "\<not> preamble_fault (truthy (authenticatedIMEI w)) (dataBuffer w @ y) \<Longrightarrow>
         \<not> packet_followed (truthy (authenticatedIMEI w)) (dataBuffer w @ y) \<Longrightarrow>
         process_frames parser
           ((process_frames parser w)\<lparr>dataBuffer := dataBuffer (process_frames parser w) @ y\<rparr>)
         = process_frames parser (w\<lparr>dataBuffer := dataBuffer w @ y\<rparr>)"
proof (induction "length (dataBuffer w)" arbitrary: w rule: less_induct)
  case less
  show ?case
  proof (cases "loop_body parser w")
    case (Continue w')
    then have nonempty: "0 < length (dataBuffer w)"
      using loop_body_shrinks by fastforce
    have login: "\<not> truthy (authenticatedIMEI w)"
      using packet_followed_here [OF Continue _ assms] less.prems(2) by auto
    let ?wy = "w\<lparr>dataBuffer := dataBuffer w @ y\<rparr>"
    let ?wy' = "w'\<lparr>dataBuffer := dataBuffer w' @ y\<rparr>"
    have step: "loop_body parser ?wy = Continue ?wy'"
      using Continue login by (rule loop_body_append_login)
    have "preamble_fault (truthy (authenticatedIMEI ?wy)) (dataBuffer ?wy)
            = preamble_fault (truthy (authenticatedIMEI ?wy')) (dataBuffer ?wy')"
      using step by (rule preamble_fault_Continue)
    then have no_fault: "\<not> preamble_fault (truthy (authenticatedIMEI w')) (dataBuffer w' @ y)"
      using less.prems(1) by simp
    have "packet_followed False (dataBuffer w @ y) = packet_followed True (dataBuffer w' @ y)"
      using Continue login by (rule packet_followed_login)
    then have alone: "\<not> packet_followed (truthy (authenticatedIMEI w')) (dataBuffer w' @ y)"
      using less.prems(2) login loop_body_login(4) [OF Continue login] by simp
    have IH: "process_frames parser
           ((process_frames parser w')\<lparr>dataBuffer := dataBuffer (process_frames parser w') @ y\<rparr>)
         = process_frames parser ?wy'"
      using less.hyps [OF loop_body_shrinks [OF Continue] no_fault alone] .
    have "process_frames parser w = process_frames parser w'"
      using Continue nonempty by (subst process_frames.simps) simp
    moreover have "process_frames parser ?wy = process_frames parser ?wy'"
      using step nonempty by (subst process_frames.simps) simp
    ultimately show ?thesis using IH by simp
  next
    case (Break w')
    from loop_body_Break [OF Break] show ?thesis
    proof
      assume "truthy (authenticatedIMEI w) \<and> 8 \<le> length (dataBuffer w) \<and>
              readUInt32BE (dataBuffer w) 0 \<noteq> 0"
      then have "preamble_fault (truthy (authenticatedIMEI w)) (dataBuffer w @ y)"
        using preamble_fault_here by simp
      with less.prems(1) show ?thesis by simp
    next
      assume "w' = w"
      with Break have "process_frames parser w = w"
        by (simp add: process_frames_Break_same)
      then show ?thesis by simp
    qed
  qed
qed

lemma append_chunk_stats:
  "append_chunk now chunk w
     = upd_session (stats now (length chunk)) (w\<lparr>dataBuffer := dataBuffer w @ chunk\<rparr>)"
  by (simp add: append_chunk_def stats_def)

lemma upd_session_fields [simp]:
  "dataBuffer (upd_session f w) = dataBuffer w"
  "authenticatedIMEI (upd_session f w) = authenticatedIMEI w"
  "sessionId (upd_session f w) = sessionId w"
  "written (upd_session f w) = written w"
  "forwarded (upd_session f w) = forwarded w"
  "destroyed (upd_session f w) = destroyed w"
  by (simp_all add: upd_session_def)

lemma upd_session_upd_session:
  "upd_session f (upd_session g w) = upd_session (f \<circ> g) w"
  by (simp add: upd_session_def option.map_comp)

lemma upd_session_commute:
  assumes "\<And>s. f (g s) = g (f s)"
  shows "upd_session f (upd_session g w) = upd_session g (upd_session f w)"
proof -
  have "f \<circ> g = g \<circ> f" using assms by (simp add: fun_eq_iff)
  then show ?thesis by (simp add: upd_session_upd_session)
qed

lemma upd_session_update [simp]:
  "upd_session f (w\<lparr>dataBuffer := b\<rparr>) = (upd_session f w)\<lparr>dataBuffer := b\<rparr>"
  "upd_session f (w\<lparr>written := wr\<rparr>) = (upd_session f w)\<lparr>written := wr\<rparr>"
  "upd_session f (w\<lparr>forwarded := fw\<rparr>) = (upd_session f w)\<lparr>forwarded := fw\<rparr>"
  "upd_session f (w\<lparr>authenticatedIMEI := a\<rparr>) = (upd_session f w)\<lparr>authenticatedIMEI := a\<rparr>"
  by (simp_all add: upd_session_def)

lemma stats_commutes:
  "stats now n (packetsReceived_update f s) = packetsReceived_update f (stats now n s)"
  "stats now n (imei_update g s) = imei_update g (stats now n s)"
  "packetsReceived (stats now n s) = packetsReceived s"
  by (cases s; simp add: stats_def)+

lemma parse_avl_stats:
  "parse_avl parser (upd_session (stats now n) w) = upd_session (stats now n) (parse_avl parser w)"
proof -
  have "upd_session (\<lambda>s. s\<lparr>packetsReceived := packetsReceived s + 1\<rparr>) (upd_session (stats now n) v)
        = upd_session (stats now n) (upd_session (\<lambda>s. s\<lparr>packetsReceived := packetsReceived s + 1\<rparr>) v)"
    for v :: "outbound conn"
    by (rule upd_session_commute) (simp add: stats_commutes)
  then show ?thesis
    by (simp add: parse_avl_def Let_def split: option.splits)
qed

lemma loop_body_stats:
  "loop_body parser (upd_session (stats now n) w)
     = (case loop_body parser w of
          Continue w' \<Rightarrow> Continue (upd_session (stats now n) w')
        | Break w' \<Rightarrow> Break (upd_session (stats now n) w'))"
proof -
  have login: "upd_session (\<lambda>s'. s'\<lparr>imei := Some s, packetsReceived := Suc (packetsReceived s')\<rparr>)
                  (upd_session (stats now n) w)
               = upd_session (stats now n)
                  (upd_session (\<lambda>s'. s'\<lparr>imei := Some s, packetsReceived := Suc (packetsReceived s')\<rparr>) w)"
    for s
    by (rule upd_session_commute) (simp add: stats_commutes)
  show ?thesis
    by (simp add: loop_body_def Let_def parse_avl_stats login)
qed

lemma process_frames_unfold:
  "process_frames parser w
     = (case loop_body parser w of
          Continue w' \<Rightarrow> process_frames parser w'
        | Break w' \<Rightarrow> w')"
proof (cases "0 < length (dataBuffer w)")
  case True
  then show ?thesis by (subst process_frames.simps) simp
next
  case False
  then have "loop_body parser w = Break w" by (simp add: loop_body_def)
  with False show ?thesis by (subst process_frames.simps) simp
qed

lemma process_frames_stats:
  "process_frames parser (upd_session (stats now n) w)
     = upd_session (stats now n) (process_frames parser w)"
proof (induction "length (dataBuffer w)" arbitrary: w rule: less_induct)
  case less
  show ?case
  proof (cases "loop_body parser w")
    case (Continue w')
    have "process_frames parser (upd_session (stats now n) w)
            = process_frames parser (upd_session (stats now n) w')"
      using Continue by (subst process_frames_unfold) (simp add: loop_body_stats)
    also have "\<dots> = upd_session (stats now n) (process_frames parser w')"
      using less loop_body_shrinks [OF Continue] by blast
    also have "process_frames parser w' = process_frames parser w"
      using Continue by (subst (2) process_frames_unfold) simp
    finally show ?thesis .
  next
    case (Break w')
    have "process_frames parser (upd_session (stats now n) w) = upd_session (stats now n) w'"
      using Break by (subst process_frames_unfold) (simp add: loop_body_stats)
    moreover have "process_frames parser w = w'"
      using Break by (subst process_frames_unfold) simp
    ultimately show ?thesis by simp
  qed
qed

lemma process_frames_session_present:
  "activeSessions (process_frames parser w) (sessionId w) = None
     \<longleftrightarrow> activeSessions w (sessionId w) = None"
proof -
  have "sessionId (process_frames parser w) = sessionId w \<and>
        (activeSessions (process_frames parser w) (sessionId w) = None
           \<longleftrightarrow> activeSessions w (sessionId w) = None)"
    by (rule process_frames_rel
          [where R = "\<lambda>a b. sessionId b = sessionId a \<and>
             (activeSessions b (sessionId a) = None \<longleftrightarrow> activeSessions a (sessionId a) = None)"])
       (auto simp: loop_body_def Let_def parse_avl_def upd_session_def
          split: if_splits option.splits)
  then show ?thesis by simp
qed

lemma preamble_fault_append:
  "preamble_fault a buf \<Longrightarrow> preamble_fault a (buf @ y)"
proof (induction a buf rule: preamble_fault.induct)
  case (1 authenticated buf)
  from "1.prems" have nonempty: "0 < length buf"
    by (subst (asm) preamble_fault.simps) (simp split: if_splits)
  consider (login) "\<not> authenticated \<and> 17 \<le> length buf \<and> readUInt16BE buf 0 = 15"
    | (bad) "authenticated" "8 \<le> length buf" "readUInt32BE buf 0 \<noteq> 0"
    | (packet) "authenticated" "8 \<le> length buf" "readUInt32BE buf 0 = 0"
        "8 + readUInt32BE buf 4 + 4 \<le> length buf"
    using "1.prems" by (subst (asm) preamble_fault.simps) (auto split: if_splits)
  then show ?case
  proof cases
    case login
    then have "preamble_fault True (drop 17 buf)"
      using "1.prems" nonempty by (subst (asm) preamble_fault.simps) simp
    then have "preamble_fault True (drop 17 buf @ y)"
      using "1.IH"(1) nonempty login by simp
    then show ?thesis
      using login nonempty by (subst preamble_fault.simps) (auto simp: readUInt16BE_append)
  next
    case bad
    then show ?thesis using preamble_fault_here by simp
  next
    case packet
    let ?n = "8 + readUInt32BE buf 4 + 4"
    have "preamble_fault True (drop ?n buf)"
      using "1.prems" nonempty packet by (subst (asm) preamble_fault.simps) simp
    then have "preamble_fault True (drop ?n buf @ y)"
      using "1.IH"(2) nonempty packet by simp
    then show ?thesis
      using packet nonempty by (subst preamble_fault.simps) (auto simp: readUInt32BE_append)
  qed
qed

lemma packet_followed_append:
  "packet_followed a buf \<Longrightarrow> packet_followed a (buf @ y)"
  by (auto simp: packet_followed_def Let_def readUInt16BE_append readUInt32BE_append
        split: if_splits)

lemma on_data_within_cap:
  assumes "activeSessions w (sessionId w) \<noteq> None"
    and "length (dataBuffer w @ chunk) \<le> 65536"
  shows "on_data parser now w chunk
           = process_frames parser
               (upd_session (stats now (length chunk)) (w\<lparr>dataBuffer := dataBuffer w @ chunk\<rparr>))"
  using assms by (auto simp: on_data_def Let_def append_chunk_stats)

lemma stats_stats: "stats t2 m \<circ> stats t1 n = stats t2 (n + m)"
  by (simp add: stats_def fun_eq_iff)

lemma on_data_on_data:
  assumes more: "y \<noteq> []"
    and present: "activeSessions w (sessionId w) \<noteq> None"
    and cap: "length (dataBuffer w @ x @ y) \<le> 65536"
    and fault: "\<not> preamble_fault (truthy (authenticatedIMEI w)) (dataBuffer w @ x @ y)"
    and alone: "\<not> packet_followed (truthy (authenticatedIMEI w)) (dataBuffer w @ x @ y)"
  shows "on_data parser t2 (on_data parser t1 w x) y = on_data parser t2 w (x @ y)"
proof -
  let ?W = "upd_session (stats t1 (length x)) (w\<lparr>dataBuffer := dataBuffer w @ x\<rparr>)"
  let ?PW = "process_frames parser ?W"
  have first: "on_data parser t1 w x = ?PW"
    using present cap by (intro on_data_within_cap) simp_all
  have present': "activeSessions ?PW (sessionId ?PW) \<noteq> None"
    using present process_frames_session_present [of parser ?W]
    by (simp add: process_frames_sessionId upd_session_def)
  have "length (dataBuffer ?PW) \<le> length (dataBuffer ?W)"
    by (rule process_frames_length)
  then have cap': "length (dataBuffer ?PW @ y) \<le> 65536"
    using cap by simp
  have "on_data parser t2 ?PW y
          = process_frames parser
              (upd_session (stats t2 (length y)) (?PW\<lparr>dataBuffer := dataBuffer ?PW @ y\<rparr>))"
    using present' cap' by (rule on_data_within_cap)
  also have "\<dots> = upd_session (stats t2 (length y))
                     (process_frames parser (?PW\<lparr>dataBuffer := dataBuffer ?PW @ y\<rparr>))"
    by (rule process_frames_stats)
  also have "process_frames parser (?PW\<lparr>dataBuffer := dataBuffer ?PW @ y\<rparr>)
               = process_frames parser (?W\<lparr>dataBuffer := dataBuffer ?W @ y\<rparr>)"
    using more fault alone by (intro process_frames_append) simp_all
  also have "upd_session (stats t2 (length y))
               (process_frames parser (?W\<lparr>dataBuffer := dataBuffer ?W @ y\<rparr>))
             = process_frames parser
                 (upd_session (stats t2 (length y)) (?W\<lparr>dataBuffer := dataBuffer ?W @ y\<rparr>))"
    by (rule process_frames_stats [symmetric])
  also have "upd_session (stats t2 (length y)) (?W\<lparr>dataBuffer := dataBuffer ?W @ y\<rparr>)
             = upd_session (stats t2 (length (x @ y))) (w\<lparr>dataBuffer := dataBuffer w @ x @ y\<rparr>)"
    by (simp add: upd_session_upd_session stats_stats)
  also have "process_frames parser \<dots> = on_data parser t2 w (x @ y)"
    using present cap by (intro on_data_within_cap [symmetric]) simp_all
  finally show ?thesis using first by simp
qed

lemma on_data_destroyed:
  assumes "length (dataBuffer w @ chunk) \<le> 65536"
  shows "destroyed (on_data parser now w chunk) = destroyed w"
  using assms
  by (auto simp: on_data_def Let_def append_chunk_stats process_frames_destroyed
        split: option.splits)

lemma run_bytewise:
  assumes present: "activeSessions w (sessionId w) \<noteq> None"
    and alive: "\<not> destroyed w"
  shows "bytes \<noteq> [] \<Longrightarrow> length ts = length bytes \<Longrightarrow>
         length (dataBuffer w @ bytes) \<le> 65536 \<Longrightarrow>
         \<not> preamble_fault (truthy (authenticatedIMEI w)) (dataBuffer w @ bytes) \<Longrightarrow>
         \<not> packet_followed (truthy (authenticatedIMEI w)) (dataBuffer w @ bytes) \<Longrightarrow>
         run parser w (bytewise ts bytes) = on_data parser (last ts) w bytes"
proof (induction bytes arbitrary: ts rule: rev_induct)
  case Nil
  then show ?case by simp
next
  case (snoc b bytes)
  from snoc.prems(2) obtain ts' t where ts: "ts = ts' @ [t]" "length ts' = length bytes"
    by (cases ts rule: rev_cases) auto
  have evs: "bytewise ts (bytes @ [b]) = bytewise ts' bytes @ [Data t [b]]"
    using ts by (simp add: bytewise_def)
  have cap: "length (dataBuffer w @ bytes @ [b]) \<le> 65536"
    using snoc.prems(3) by simp
  have alive': "\<not> destroyed (on_data parser t w (bytes @ [b]))"
    using alive cap by (simp add: on_data_destroyed)
  show ?case
  proof (cases "bytes = []")
    case True
    then show ?thesis
      using ts alive' by (simp add: evs run_def bytewise_def after_destroy_def)
  next
    case False
    have "\<not> preamble_fault (truthy (authenticatedIMEI w)) (dataBuffer w @ bytes)"
      using snoc.prems(4) preamble_fault_append [of _ "dataBuffer w @ bytes" "[b]"] by auto
    moreover have "\<not> packet_followed (truthy (authenticatedIMEI w)) (dataBuffer w @ bytes)"
      using snoc.prems(5) packet_followed_append [of _ "dataBuffer w @ bytes" "[b]"] by auto
    ultimately have IH: "run parser w (bytewise ts' bytes) = on_data parser (last ts') w bytes"
      using snoc.IH [OF False ts(2)] cap by simp
    have "run parser w (bytewise ts (bytes @ [b]))
            = after_destroy (on_data parser t (on_data parser (last ts') w bytes) [b])"
      by (simp add: evs run_def IH [unfolded run_def])
    also have "on_data parser t (on_data parser (last ts') w bytes) [b]
                 = on_data parser t w (bytes @ [b])"
      using present cap snoc.prems(4,5) by (intro on_data_on_data) simp_all
    finally show ?thesis
      using alive' ts by (simp add: after_destroy_def)
  qed
qed

lemma bytewise_append:
  "length ts = length bytes \<Longrightarrow>
     bytewise (ts @ ts') (bytes @ bytes') = bytewise ts bytes @ bytewise ts' bytes'"
  by (simp add: bytewise_def)

lemma run_append: "run parser w (evs @ evs') = run parser (run parser w evs) evs'"
  by (simp add: run_def)

lemma length_toString_hex: "length (toString_hex buf) = 2 * length buf"
  by (induction buf) (simp_all add: toString_hex_def)

lemmas eval_handler =
  on_data_def append_chunk_def upd_session_def process_frames_unfold loop_body_def
  parse_avl_def Let_def content_records_def one_record_parser_def parsed_one_def
  strict_parser_def length_toString_hex
  writeUInt32BE_def after_destroy_def readUInt16BE_def readUInt32BE_def be_value_def
  toString_ascii_def char_of_def bit_Suc_0_iff

lemma map_upd_eq_iff [simp]: "(m(k \<mapsto> a) = m(k \<mapsto> b)) \<longleftrightarrow> a = b"
  by (auto dest: map_upd_eqD1)

text \<open>
  C7, as amended. Take a stream of at most 65,536 bytes in which the framing meets no
  preamble other than zero and no packet that is followed by other bytes: a login frame,
  if any, and at most one packet, whole or not. Delivering the stream to a new
  connection of the explicit-framing handler one byte per event leaves the connection
  in the same state as delivering it as one chunk at the time of the last byte: the
  same acknowledgements written, the same batches scheduled, the same buffer, the same
  session. This holds for every parser.
\<close>

theorem chunking_invariance_up_to_one_packet:
  assumes "bytes \<noteq> []" and "length ts = length bytes" and "length bytes \<le> 65536"
    and "\<not> preamble_fault False bytes" and "\<not> packet_followed False bytes"
  shows "run parser (handleGpsConnection sessions sid t0) (bytewise ts bytes)
           = run parser (handleGpsConnection sessions sid t0) [Data (last ts) bytes]"
proof -
  let ?w = "handleGpsConnection sessions sid t0 :: outbound conn"
  have w: "activeSessions ?w (sessionId ?w) \<noteq> None" "\<not> destroyed ?w" "dataBuffer ?w = []"
    "\<not> truthy (authenticatedIMEI ?w)"
    by (simp_all add: handleGpsConnection_def)
  have "run parser ?w (bytewise ts bytes) = on_data parser (last ts) ?w bytes"
    using assms w by (intro run_bytewise) simp_all
  moreover have "\<not> destroyed (on_data parser (last ts) ?w bytes)"
    using assms(3) w by (simp add: on_data_destroyed)
  ultimately show ?thesis
    by (simp add: run_def after_destroy_def)
qed

lemma login_then_frame_single:
  "run strict_parser new_connection [Data 1001 login_then_frame]
     = state_after 2 83 [] [[1], [0, 0, 0, 1]]
         [(Some ''356307042441013'', [formatRecord decoded_record])]"
  by (simp add: run_def new_connection_def handleGpsConnection_def login_then_frame_def
        imei_356307042441013_def codec8_frame_def state_after_def session_after_def
        eval_handler)

lemma login_then_frame_path:
  "\<not> preamble_fault False login_then_frame \<and> \<not> packet_followed False login_then_frame"
  by (simp add: preamble_fault.simps packet_followed_def login_then_frame_def
        imei_356307042441013_def codec8_frame_def readUInt16BE_def readUInt32BE_def
        be_value_def)

theorem chunking_invariance_up_to_one_packet_witness:
  "login_then_frame \<noteq> [] \<and>
   length (replicate 83 (1001::nat)) = length login_then_frame \<and>
   length login_then_frame \<le> 65536 \<and>
   \<not> preamble_fault False login_then_frame \<and> \<not> packet_followed False login_then_frame \<and>
   run strict_parser (handleGpsConnection Map.empty ''10.0.0.7:40312'' 1000)
       (bytewise (replicate 83 1001) login_then_frame)
     = run strict_parser (handleGpsConnection Map.empty ''10.0.0.7:40312'' 1000)
         [Data (last (replicate 83 1001)) login_then_frame] \<and>
   written (run strict_parser (handleGpsConnection Map.empty ''10.0.0.7:40312'' 1000)
       (bytewise (replicate 83 1001) login_then_frame)) = [[1], [0, 0, 0, 1]]"
proof -
  have len: "length login_then_frame = 83"
    by (simp add: login_then_frame_def imei_356307042441013_def codec8_frame_def)
  then have ne: "login_then_frame \<noteq> []" by auto
  have single: "written (run strict_parser (handleGpsConnection Map.empty ''10.0.0.7:40312'' 1000)
                  [Data 1001 login_then_frame]) = [[1], [0, 0, 0, 1]]"
    using login_then_frame_single by (simp add: new_connection_def state_after_def)
  show ?thesis
    using chunking_invariance_up_to_one_packet [where bytes = login_then_frame
        and ts = "replicate 83 1001" and parser = strict_parser and sessions = Map.empty
        and sid = "''10.0.0.7:40312''" and ?t0.0 = 1000]
      login_then_frame_path ne len single
    by simp
qed

lemma noise_stage_1:
  "run one_record_parser new_connection
     (bytewise (replicate 24 1001) (imei_356307042441013 @ take 7 noise))
   = state_after 1 24 (take 7 noise) [[1]] []"
proof -
  let ?A = "imei_356307042441013 @ take 7 noise"
  have "run one_record_parser new_connection (bytewise (replicate 24 1001) ?A)
          = on_data one_record_parser (last (replicate 24 1001)) new_connection ?A"
    by (rule run_bytewise)
       (simp_all add: new_connection_def handleGpsConnection_def imei_356307042441013_def
          noise_def preamble_fault.simps packet_followed_def readUInt16BE_def be_value_def)
  also have "\<dots> = state_after 1 24 (take 7 noise) [[1]] []"
    by (simp add: new_connection_def handleGpsConnection_def imei_356307042441013_def noise_def
          state_after_def session_after_def eval_handler)
  finally show ?thesis .
qed

lemma noise_stage_2:
  "run one_record_parser (state_after 1 24 (take 7 noise) [[1]] []) [Data 1001 [0xFF]]
   = state_after 1 25 [] [[1]] []"
  by (simp add: run_def noise_def state_after_def session_after_def eval_handler)

text \<open>A packet that arrives byte by byte at a connection whose buffer is empty.\<close>

lemma frame_bytewise:
  assumes "parser (toString_hex codec8_frame) = Some parsed_one"
  shows "run parser (state_after n m [] wr fw) (bytewise (replicate 66 1001) codec8_frame)
         = state_after (n + 1) (m + 66) [] (wr @ [[0, 0, 0, 1]])
             (fw @ [(Some ''356307042441013'', [formatRecord decoded_record])])"
proof -
  let ?w = "state_after n m [] wr fw :: outbound conn"
  have hex: "parser (toString_hex
      [0x00, 0x00, 0x00, 0x00, 0x00, 0x00, 0x00, 0x36,
       0x08, 0x01,
       0x00, 0x00, 0x01, 0x6B, 0x40, 0xD8, 0xEA, 0x30, 0x01,
       0x00, 0x00, 0x00, 0x00, 0x00, 0x00, 0x00, 0x00, 0x00, 0x00, 0x00, 0x00, 0x00, 0x00, 0x00,
       0x01, 0x05,
       0x02, 0x15, 0x03, 0x01, 0x01,
       0x01, 0x42, 0x5E, 0x0F,
       0x01, 0xF1, 0x00, 0x00, 0x60, 0x1A,
       0x01, 0x4E, 0x00, 0x00, 0x00, 0x00, 0x00, 0x00, 0x00, 0x00,
       0x01,
       0x00, 0x00, 0xC7, 0xCF]) = Some parsed_one"
    using assms by (simp add: codec8_frame_def)
  have "run parser ?w (bytewise (replicate 66 1001) codec8_frame)
          = on_data parser (last (replicate 66 1001)) ?w codec8_frame"
    by (rule run_bytewise)
       (simp_all add: state_after_def codec8_frame_def preamble_fault.simps packet_followed_def
          readUInt32BE_def be_value_def)
  also have "\<dots> = state_after (n + 1) (m + 66) [] (wr @ [[0, 0, 0, 1]])
             (fw @ [(Some ''356307042441013'', [formatRecord decoded_record])])"
    using hex
    by (simp add: codec8_frame_def state_after_def session_after_def on_data_def
          append_chunk_def upd_session_def process_frames_unfold loop_body_def parse_avl_def
          Let_def content_records_def parsed_one_def writeUInt32BE_def readUInt32BE_def
          be_value_def)
  finally show ?thesis .
qed

lemma login_noise_frame_bytewise:
  "run one_record_parser new_connection (bytewise (replicate 91 1001) login_noise_frame)
   = state_after 2 91 [] [[1], [0, 0, 0, 1]]
       [(Some ''356307042441013'', [formatRecord decoded_record])]"
proof -
  have bytes: "login_noise_frame = (imei_356307042441013 @ take 7 noise) @ [0xFF] @ codec8_frame"
    by (simp add: login_noise_frame_def noise_def)
  have "replicate (24 + (1 + 66)) (1001::nat)
          = replicate 24 1001 @ replicate 1 1001 @ replicate 66 1001"
    by (simp only: replicate_add)
  then have ts: "replicate 91 (1001::nat) = replicate 24 1001 @ replicate 1 1001 @ replicate 66 1001"
    by simp
  have "bytewise (replicate 91 1001) login_noise_frame
          = bytewise (replicate 24 1001) (imei_356307042441013 @ take 7 noise)
            @ bytewise (replicate 1 1001) [0xFF]
            @ bytewise (replicate 66 1001) codec8_frame"
    unfolding bytes ts
    by (subst bytewise_append, simp add: imei_356307042441013_def noise_def,
        subst bytewise_append, simp_all)
  moreover have "bytewise (replicate 1 1001) [0xFF] = [Data 1001 [0xFF]]"
    by (simp add: bytewise_def)
  ultimately have "run one_record_parser new_connection
                     (bytewise (replicate 91 1001) login_noise_frame)
      = run one_record_parser
          (run one_record_parser
             (run one_record_parser new_connection
                (bytewise (replicate 24 1001) (imei_356307042441013 @ take 7 noise)))
             [Data 1001 [0xFF]])
          (bytewise (replicate 66 1001) codec8_frame)"
    by (simp only: run_append)
  moreover have "run one_record_parser (state_after 1 25 [] [[1]] [])
                   (bytewise (replicate 66 1001) codec8_frame)
      = state_after 2 91 [] [[1], [0, 0, 0, 1]]
          [(Some ''356307042441013'', [formatRecord decoded_record])]"
    using frame_bytewise [where parser = one_record_parser and n = 1 and m = 25
        and wr = "[[1]]" and fw = "[]"]
    by (simp add: one_record_parser_def numeral_2_eq_2)
  ultimately show ?thesis
    by (simp only: noise_stage_1 noise_stage_2)
qed

text \<open>
  C7 as stated fails. The stream is a login frame, eight bytes \<open>FF\<close> and a Codec 8
  packet. As one chunk, the bad preamble empties the buffer and the packet with it: the
  only write is the login acknowledgement. Byte by byte, the buffer is emptied when the
  eighth \<open>FF\<close> arrives, and the packet that follows is framed, acknowledged and
  forwarded.
\<close>

theorem noise_breaks_chunking_invariance:
  "length login_noise_frame = 91 \<and>
   written (run one_record_parser new_connection [Data 1001 login_noise_frame]) = [[1]] \<and>
   forwarded (run one_record_parser new_connection [Data 1001 login_noise_frame]) = [] \<and>
   written (run one_record_parser new_connection (bytewise (replicate 91 1001) login_noise_frame))
     = [[1], [0, 0, 0, 1]] \<and>
   forwarded (run one_record_parser new_connection (bytewise (replicate 91 1001) login_noise_frame))
     = [(Some ''356307042441013'', [formatRecord decoded_record])]"
proof -
  have "written (run one_record_parser new_connection [Data 1001 login_noise_frame]) = [[1]] \<and>
        forwarded (run one_record_parser new_connection [Data 1001 login_noise_frame]) = [] \<and>
        length login_noise_frame = 91"
    by (simp add: run_def new_connection_def handleGpsConnection_def login_noise_frame_def
          imei_356307042441013_def noise_def codec8_frame_def eval_handler)
  then show ?thesis
    by (simp add: login_noise_frame_bytewise state_after_def)
qed

lemma loop_body_written:
  "loop_body parser w = Continue w' \<Longrightarrow> \<exists>xs. written w' = written w @ xs"
  "loop_body parser w = Break w' \<Longrightarrow> \<exists>xs. written w' = written w @ xs"
  by (auto simp: loop_body_def Let_def parse_avl_def split: if_splits option.splits)

lemma process_frames_written: "\<exists>xs. written (process_frames parser w) = written w @ xs"
  by (rule process_frames_rel [where R = "\<lambda>a b. \<exists>xs. written b = written a @ xs"])
     (auto dest: loop_body_written)

lemma socket_emit_written: "\<exists>xs. written (socket_emit parser w e) = written w @ xs"
proof (cases e)
  case (Data now chunk)
  then show ?thesis
    using process_frames_written [of parser "append_chunk now chunk w"]
    by (auto simp: on_data_def Let_def after_destroy_def cleanup_def socket_destroy_def
          append_chunk_def split: option.splits)
qed (simp_all add: cleanup_def after_destroy_def socket_destroy_def)

lemma run_written: "\<exists>xs. written (run parser w evs) = written w @ xs"
proof (induction evs arbitrary: w)
  case Nil
  then show ?case by (simp add: run_def)
next
  case (Cons e evs)
  obtain xs where xs: "written (socket_emit parser w e) = written w @ xs"
    using socket_emit_written by blast
  obtain ys where "written (run parser (socket_emit parser w e) evs)
                     = written (socket_emit parser w e) @ ys"
    using Cons by blast
  with xs show ?case by (simp add: run_def)
qed

text \<open>
  The cap is needed as well: a stream of 65,537 bytes that starts with a login frame is
  rejected as one chunk, with nothing written, while its first 17 bytes are
  acknowledged when it arrives byte by byte.
\<close>

lemma long_stream_rejected_as_one_chunk:
  "length long_stream = 65537 \<and>
   written (run one_record_parser new_connection [Data 1001 long_stream]) = [] \<and>
   destroyed (run one_record_parser new_connection [Data 1001 long_stream]) \<and>
   (\<exists>xs. written (run one_record_parser new_connection
                   (bytewise (replicate 65537 1001) long_stream)) = [1] # xs)"
proof -
  have len: "length long_stream = 65537"
    by (simp add: long_stream_def imei_356307042441013_def)
  have one: "run one_record_parser new_connection [Data 1001 long_stream]
               = cleanup (socket_destroy (append_chunk 1001 long_stream new_connection))"
    using len
    by (simp add: run_def on_data_def Let_def after_destroy_def socket_destroy_def
          append_chunk_def new_connection_def handleGpsConnection_def)
  have "replicate (17 + 65520) (1001::nat) = replicate 17 1001 @ replicate 65520 1001"
    by (simp only: replicate_add)
  then have ts: "replicate 65537 (1001::nat) = replicate 17 1001 @ replicate 65520 1001"
    by simp
  have "bytewise (replicate 65537 1001) long_stream
          = bytewise (replicate 17 1001) imei_356307042441013
            @ bytewise (replicate 65520 1001) (replicate 65520 0)"
    unfolding ts long_stream_def
    by (rule bytewise_append) (simp add: imei_356307042441013_def)
  then have split: "run one_record_parser new_connection
                      (bytewise (replicate 65537 1001) long_stream)
      = run one_record_parser
          (run one_record_parser new_connection
             (bytewise (replicate 17 1001) imei_356307042441013))
          (bytewise (replicate 65520 1001) (replicate 65520 0))"
    by (simp only: run_append)
  have "run one_record_parser new_connection (bytewise (replicate 17 1001) imei_356307042441013)
          = on_data one_record_parser (last (replicate 17 1001)) new_connection
              imei_356307042441013"
    by (rule run_bytewise)
       (simp_all add: new_connection_def handleGpsConnection_def imei_356307042441013_def
          preamble_fault.simps packet_followed_def readUInt16BE_def be_value_def)
  also have "\<dots> = state_after 1 17 [] [[1]] []"
    by (simp add: new_connection_def handleGpsConnection_def imei_356307042441013_def
          state_after_def session_after_def eval_handler)
  finally have login: "run one_record_parser new_connection
                         (bytewise (replicate 17 1001) imei_356307042441013)
                       = state_after 1 17 [] [[1]] []" .
  obtain xs where "written (run one_record_parser (state_after 1 17 [] [[1]] [])
                      (bytewise (replicate 65520 1001) (replicate 65520 0)))
                   = written (state_after 1 17 [] [[1]] [] :: outbound conn) @ xs"
    using run_written by blast
  then have "written (run one_record_parser new_connection
                        (bytewise (replicate 65537 1001) long_stream)) = [1] # xs"
    by (simp add: split login state_after_def)
  then show ?thesis
    using len one by (auto simp: cleanup_def socket_destroy_def append_chunk_def
        new_connection_def handleGpsConnection_def)
qed

text \<open>
  The handler gives the parser the whole buffer, not the packet it has framed. With a
  parser that decodes a packet only when the text holds nothing else, a login frame and
  two packets in one chunk yield one acknowledgement and one batch: the first packet is
  parsed together with the second and dropped. Byte by byte, each packet is alone in
  the buffer when it is complete, and both are acknowledged.
\<close>

lemma login_two_frames_bytewise:
  "run strict_parser new_connection (bytewise (replicate 149 1001) login_two_frames)
   = state_after 3 149 [] [[1], [0, 0, 0, 1], [0, 0, 0, 1]]
       [(Some ''356307042441013'', [formatRecord decoded_record]),
        (Some ''356307042441013'', [formatRecord decoded_record])]"
proof -
  have bytes: "login_two_frames = login_then_frame @ codec8_frame"
    by (simp add: login_two_frames_def login_then_frame_def)
  have "replicate (83 + 66) (1001::nat) = replicate 83 1001 @ replicate 66 1001"
    by (simp only: replicate_add)
  then have ts: "replicate 149 (1001::nat) = replicate 83 1001 @ replicate 66 1001"
    by simp
  have "bytewise (replicate 149 1001) login_two_frames
          = bytewise (replicate 83 1001) login_then_frame
            @ bytewise (replicate 66 1001) codec8_frame"
    unfolding bytes ts
    by (rule bytewise_append)
       (simp add: login_then_frame_def imei_356307042441013_def codec8_frame_def)
  then have split: "run strict_parser new_connection
                      (bytewise (replicate 149 1001) login_two_frames)
      = run strict_parser
          (run strict_parser new_connection (bytewise (replicate 83 1001) login_then_frame))
          (bytewise (replicate 66 1001) codec8_frame)"
    by (simp only: run_append)
  have "run strict_parser new_connection (bytewise (replicate 83 1001) login_then_frame)
          = on_data strict_parser (last (replicate 83 1001)) new_connection login_then_frame"
    using login_then_frame_path
    by (intro run_bytewise)
       (simp_all add: new_connection_def handleGpsConnection_def login_then_frame_def
          imei_356307042441013_def codec8_frame_def)
  also have "\<dots> = run strict_parser new_connection [Data 1001 login_then_frame]"
    by (simp add: run_def after_destroy_def on_data_destroyed new_connection_def
          handleGpsConnection_def login_then_frame_def imei_356307042441013_def
          codec8_frame_def)
  finally have first: "run strict_parser new_connection
                         (bytewise (replicate 83 1001) login_then_frame)
      = state_after 2 83 [] [[1], [0, 0, 0, 1]]
          [(Some ''356307042441013'', [formatRecord decoded_record])]"
    by (simp only: login_then_frame_single)
  have "strict_parser (toString_hex codec8_frame) = Some parsed_one"
    by (simp add: strict_parser_def length_toString_hex codec8_frame_def)
  then have "run strict_parser
               (state_after 2 83 [] [[1], [0, 0, 0, 1]]
                  [(Some ''356307042441013'', [formatRecord decoded_record])])
               (bytewise (replicate 66 1001) codec8_frame)
      = state_after 3 149 [] [[1], [0, 0, 0, 1], [0, 0, 0, 1]]
          [(Some ''356307042441013'', [formatRecord decoded_record]),
           (Some ''356307042441013'', [formatRecord decoded_record])]"
    using frame_bytewise [where parser = strict_parser and n = 2 and m = 83
        and wr = "[[1], [0, 0, 0, 1]]"
        and fw = "[(Some ''356307042441013'', [formatRecord decoded_record])]"]
    by simp
  then show ?thesis
    by (simp only: split first)
qed

lemma two_frames_in_one_chunk:
  "length login_two_frames = 149 \<and>
   \<not> preamble_fault False login_two_frames \<and> packet_followed False login_two_frames \<and>
   written (run strict_parser new_connection [Data 1001 login_two_frames]) = [[1], [0, 0, 0, 1]] \<and>
   forwarded (run strict_parser new_connection [Data 1001 login_two_frames])
     = [(Some ''356307042441013'', [formatRecord decoded_record])] \<and>
   written (run strict_parser new_connection (bytewise (replicate 149 1001) login_two_frames))
     = [[1], [0, 0, 0, 1], [0, 0, 0, 1]] \<and>
   forwarded (run strict_parser new_connection (bytewise (replicate 149 1001) login_two_frames))
     = [(Some ''356307042441013'', [formatRecord decoded_record]),
        (Some ''356307042441013'', [formatRecord decoded_record])]"
proof -
  have "length login_two_frames = 149 \<and>
        \<not> preamble_fault False login_two_frames \<and> packet_followed False login_two_frames"
    by (simp add: preamble_fault.simps packet_followed_def login_two_frames_def
          imei_356307042441013_def codec8_frame_def readUInt16BE_def readUInt32BE_def
          be_value_def)
  moreover have "written (run strict_parser new_connection [Data 1001 login_two_frames])
                   = [[1], [0, 0, 0, 1]] \<and>
                 forwarded (run strict_parser new_connection [Data 1001 login_two_frames])
                   = [(Some ''356307042441013'', [formatRecord decoded_record])]"
    by (simp add: run_def new_connection_def handleGpsConnection_def login_two_frames_def
          imei_356307042441013_def codec8_frame_def eval_handler)
  ultimately show ?thesis
    by (simp add: login_two_frames_bytewise state_after_def)
qed

section \<open>Frames with a wrong CRC\<close>

lemma codec8_frame_bad_crc_fields:
  "complete_packet codec8_frame_bad_crc \<and> readUInt32BE codec8_frame_bad_crc 0 = 0 \<and>
   readUInt32BE codec8_frame_bad_crc 4 = 54 \<and> length codec8_frame_bad_crc = 66 \<and>
   readUInt32BE codec8_frame_bad_crc (8 + 54) = 0xC7CE \<and>
   crc16_ibm (take 54 (drop 8 codec8_frame_bad_crc)) = 0xC7CF"
  by (simp add: complete_packet_def codec8_frame_bad_crc_def codec8_frame_def readUInt32BE_def
        be_value_def crc16_ibm_def crc16_byte_eval crc16_step_eval)

lemma process_frames_index_destroyed:
  "destroyed (process_frames_index parser clock w) = destroyed w"
  by (rule process_frames_index_rel [where R = "\<lambda>a b. destroyed b = destroyed a"])
     (auto simp: loop_body_index_def process_avl_index_def Let_def
        split: if_splits option.splits)

lemma on_data_index_destroyed:
  assumes "length (dataBuffer w @ chunk) \<le> 65536"
  shows "destroyed (on_data_index parser clock now w chunk) = destroyed w"
  using assms
  by (auto simp: on_data_index_def Let_def append_chunk_stats process_frames_index_destroyed
        split: option.splits)

text \<open>
  C2, as amended. Neither handler computes a CRC; what happens to a frame is decided by
  the parser. No frame closes the connection: a data listener that finds the buffer
  within its cap leaves the socket as it was, destroyed or not. When the parser throws
  on a complete packet, the explicit-framing handler drops the bytes of the packet and
  goes on with the next frame, with nothing written and nothing scheduled; the
  parser-delegating handler leaves its state as it was and waits for more data.
\<close>

theorem avl_frame_never_closes:
  "(length (dataBuffer w @ chunk) \<le> 65536 \<longrightarrow>
      destroyed (on_data parser now w chunk) = destroyed w) \<and>
   (length (dataBuffer v @ chunk) \<le> 65536 \<longrightarrow>
      destroyed (on_data_index parser clock now v chunk) = destroyed v) \<and>
   (truthy (authenticatedIMEI w) \<and> complete_packet (dataBuffer w) \<and>
    readUInt32BE (dataBuffer w) 0 = 0 \<and> parser (toString_hex (dataBuffer w)) = None \<longrightarrow>
      loop_body parser w
        = Continue (w\<lparr>dataBuffer := drop (8 + readUInt32BE (dataBuffer w) 4 + 4) (dataBuffer w)\<rparr>)) \<and>
   (parser (toString_hex (dataBuffer v)) = None \<longrightarrow> loop_body_index parser clock v = Break v)"
  by (simp add: on_data_destroyed on_data_index_destroyed loop_body_def loop_body_index_def
        complete_packet_def parse_avl_def Let_def)

theorem avl_frame_never_closes_witness:
  "length (dataBuffer (authenticated_with [] :: outbound conn) @ codec8_frame_bad_crc) \<le> 65536 \<and>
   \<not> destroyed (on_data throwing_parser 1002 (authenticated_with []) codec8_frame_bad_crc) \<and>
   \<not> destroyed (on_data_index throwing_parser (\<lambda>i. 0) 1002 (authenticated_with [])
        codec8_frame_bad_crc) \<and>
   truthy (authenticatedIMEI (authenticated_with codec8_frame_bad_crc :: outbound conn)) \<and>
   throwing_parser (toString_hex codec8_frame_bad_crc) = None \<and>
   loop_body throwing_parser (authenticated_with codec8_frame_bad_crc)
     = Continue (authenticated_with []) \<and>
   loop_body_index throwing_parser (\<lambda>i. 0) (authenticated_with codec8_frame_bad_crc)
     = Break (authenticated_with codec8_frame_bad_crc)"
  using avl_frame_never_closes [where w = "authenticated_with []" and v = "authenticated_with []"
      and chunk = codec8_frame_bad_crc and parser = throwing_parser and now = 1002
      and clock = "\<lambda>i. 0"]
    avl_frame_never_closes [where w = "authenticated_with codec8_frame_bad_crc"
      and v = "authenticated_with codec8_frame_bad_crc"
      and chunk = "[]" and parser = throwing_parser and now = 1002 and clock = "\<lambda>i. 0"]
    codec8_frame_bad_crc_fields
  by (simp add: authenticated_with_def state_after_def session_after_def throwing_parser_def)

text \<open>
  C2 as stated fails. The packet carries the CRC \<open>0xC7CE\<close> while the CRC-16/IBM of its
  data field is \<open>0xC7CF\<close>. With a parser that throws on it, the socket stays open and
  the session registered; with a parser that decodes its record, the batch is scheduled
  and acknowledged.
\<close>

theorem bad_crc_frame_keeps_connection:
  "crc16_ibm (take 54 (drop 8 codec8_frame_bad_crc)) = 0xC7CF \<and>
   readUInt32BE codec8_frame_bad_crc (8 + 54) = 0xC7CE \<and>
   \<not> destroyed (socket_emit throwing_parser (authenticated_with []) (Data 1002 codec8_frame_bad_crc)) \<and>
   activeSessions (socket_emit throwing_parser (authenticated_with []) (Data 1002 codec8_frame_bad_crc))
     ''10.0.0.7:40312'' \<noteq> None \<and>
   \<not> destroyed (socket_emit one_record_parser (authenticated_with []) (Data 1002 codec8_frame_bad_crc)) \<and>
   forwarded (socket_emit one_record_parser (authenticated_with []) (Data 1002 codec8_frame_bad_crc))
     = [(Some ''356307042441013'', [formatRecord decoded_record])] \<and>
   written (socket_emit one_record_parser (authenticated_with []) (Data 1002 codec8_frame_bad_crc))
     = [[1], [0, 0, 0, 1]]"
  using codec8_frame_bad_crc_fields
  by (simp add: authenticated_with_def state_after_def session_after_def on_data_def append_chunk_def upd_session_def
        process_frames_unfold loop_body_def parse_avl_def Let_def content_records_def
        one_record_parser_def parsed_one_def throwing_parser_def writeUInt32BE_def
        after_destroy_def logged_in_def)

section \<open>The records that are forwarded\<close>





















text \<open>
  The callback of the parser-delegating handler, which is reached only when the parser
  object has an \<^verbatim>\<open>avl\<close> property, is another function: it maps a speed of 0 to
  \<^verbatim>\<open>null\<close>, has no \<^verbatim>\<open>false\<close> ignition, and gives a record without \<^verbatim>\<open>timestampMs\<close> the
  reading of the clock.
\<close>

lemma formatRecord_index_stationary_ignition_off:
  "raw_speed raw_stationary_ignition_off = Some 0 \<and>
   io_find raw_stationary_ignition_off 239 = Some 0 \<and>
   speed (formatRecord_index now raw_stationary_ignition_off) = None \<and>
   ignition (formatRecord_index now raw_stationary_ignition_off) = None"
  by (simp add: formatRecord_index_def raw_stationary_ignition_off_def io_find_def or_else_def)

lemma formatRecord_index_missing_timestamp:
  "timestampMs raw_without_timestamp = None \<and>
   timestamp (formatRecord_index 1700000000000 raw_without_timestamp) = Some 1700000000000 \<and>
   timestamp (formatRecord_index 1700000000001 raw_without_timestamp) = Some 1700000000001"
  by (simp add: formatRecord_index_def raw_without_timestamp_def or_else_def)

end
